theory Spec2Isabelle
  imports Main "HOL-Library.Signed_Division"
begin

section \<open>Data model\<close>

text \<open>
  The SMV convolution operator (\<^verbatim>\<open>smv_convolution_op.cpp\<close>) works on four-dimensional
  tensors only: every shape it reads is indexed with the constants 0..3, and the kernel
  receives \<^verbatim>\<open>int dims[4]\<close>. A shape is therefore a 4-tuple, read with a four-valued index,
  so that a shape access is always in range. C++ \<^verbatim>\<open>int\<close> values are modelled as \<open>int\<close>: the
  loop counters of \<^verbatim>\<open>runNHWC\<close> are only ever incremented while strictly below an \<^verbatim>\<open>int\<close>
  bound, so they cannot overflow.
\<close>

datatype ix4 = I0 | I1 | I2 | I3

fun nth4 :: "'a \<times> 'a \<times> 'a \<times> 'a \<Rightarrow> ix4 \<Rightarrow> 'a" where
  "nth4 (a, b, c, d) I0 = a"
| "nth4 (a, b, c, d) I1 = b"
| "nth4 (a, b, c, d) I2 = c"
| "nth4 (a, b, c, d) I3 = d"

datatype DataLayout = NHWC | NCHW

record TensorShape =
  dims :: "int \<times> int \<times> int \<times> int"
  padding :: "int \<times> int \<times> int \<times> int"
  layout :: DataLayout

text \<open>\<^verbatim>\<open>shape[i]\<close> and \<^verbatim>\<open>shape.getPadding(i)\<close>.\<close>

definition shapeAt :: "TensorShape \<Rightarrow> ix4 \<Rightarrow> int" where
  "shapeAt sh i = nth4 (dims sh) i"

definition getPadding :: "TensorShape \<Rightarrow> ix4 \<Rightarrow> int" where
  "getPadding sh i = nth4 (padding sh) i"

text \<open>
  A tensor is a shape and a data buffer. The buffer's contents are only ever handed to
  the external kernel, so the buffer type is left open.
\<close>

record 'b Tensor =
  shape :: TensorShape
  data :: 'b

text \<open>
  Tensors are reached through pointers (\<^verbatim>\<open>SmvTensor*\<close>): the store maps an address to the
  tensor that lives there.
\<close>

type_synonym addr = nat

type_synonym 'b heap = "addr \<Rightarrow> 'b Tensor"

text \<open>
  A tiled tensor: the tile-grid shape (number of tiles per axis) and one slot per tile,
  holding the tile's address once the tile has been generated.
\<close>

record TiledTensor =
  gridShape :: TensorShape
  slots :: "addr option list"

datatype error = AssertionFailure | IndexError | UnpopulatedTile

text \<open>
  Modelled from the spec: the class \<^verbatim>\<open>TiledTensor\<close> is not part of the sources at hand.
  \<^verbatim>\<open>startIndex()\<close> "returns a coordinate-indexing function closed over this tensor's
  tile-grid shape; calling it with (n,h,w,c) tile coordinates yields the linear tile
  index. Fails with an indexing error if any coordinate is outside [0, tileGridExtent)
  for its axis." The linear index is taken row-major over the grid.
\<close>

definition startIndex :: "TiledTensor \<Rightarrow> int \<Rightarrow> int \<Rightarrow> int \<Rightarrow> int \<Rightarrow> error + nat" where
  "startIndex t n h w c =
     (let g = gridShape t in
      if 0 \<le> n \<and> n < shapeAt g I0 \<and> 0 \<le> h \<and> h < shapeAt g I1 \<and>
         0 \<le> w \<and> w < shapeAt g I2 \<and> 0 \<le> c \<and> c < shapeAt g I3
      then Inr (nat (((n * shapeAt g I1 + h) * shapeAt g I2 + w) * shapeAt g I3 + c))
      else Inl IndexError)"

text \<open>
  Modelled from the spec: \<^verbatim>\<open>operator[](linear_index)\<close> "returns the Tensor tile at that
  slot; fails if the slot has not yet been populated".
\<close>

definition tileAt :: "TiledTensor \<Rightarrow> nat \<Rightarrow> error + addr" where
  "tileAt t i =
     (if i < length (slots t)
      then (case slots t ! i of None \<Rightarrow> Inl UnpopulatedTile | Some a \<Rightarrow> Inr a)
      else Inl UnpopulatedTile)"

section \<open>The kernel boundary\<close>

text \<open>
  The arguments of one call of \<^verbatim>\<open>smv_conv3d_f32_nhwc_same_padding_vec_fxp\<close>, in the order
  of the call in \<^verbatim>\<open>runNHWC\<close>: the three tiles whose buffers are passed, the three
  \<^verbatim>\<open>int[4]\<close> dimension arrays, the three channel paddings, the two strides, and the last
  three arguments \<^verbatim>\<open>W\<close>, \<^verbatim>\<open>iC\<close> and \<^verbatim>\<open>iC == wC\<close>.
\<close>

record KernelCall =
  kInputs :: addr
  kWeights :: addr
  kResults :: addr
  kInputDims :: "int list"
  kWeightsDims :: "int list"
  kResultsDims :: "int list"
  kInputPad :: int
  kWeightsPad :: int
  kResultsPad :: int
  kRowStride :: int
  kColStride :: int
  kFilterTile :: int
  kChanTile :: int
  kFlag :: bool

text \<open>
  Modelled from the spec: the kernel itself (\<^verbatim>\<open>operators/smv/kernels.h\<close>) is not part of
  the sources at hand. It is "an external collaborator", a blocking call "writing results
  in place into the output tile buffer". It is a parameter of the model: from the call's
  arguments and the contents of the three buffers it yields the new contents of the
  output buffer.
\<close>

type_synonym 'b kernel = "KernelCall \<Rightarrow> 'b \<Rightarrow> 'b \<Rightarrow> 'b \<Rightarrow> 'b"

section \<open>Execution state\<close>

text \<open>
  The trace records the calls that leave the operator, in order: the two kinds of call
  into the tiling optimizer and the kernel invocations. A kernel invocation is recorded
  with the tile coordinates that selected its input, weight and output tiles (the
  coordinates of the diagnostic line printed before the call) and with its arguments.
\<close>

type_synonym coord = "int \<times> int \<times> int \<times> int"

record Invocation =
  inCoord :: coord
  wCoord :: coord
  outCoord :: coord
  args :: KernelCall

datatype event =
    ComputeBasicTileShapes
  | GenerateTiledTensor addr TensorShape "int list"
  | KernelInvoked Invocation

record 'b state =
  heap :: "'b heap"
  trace :: "event list"

type_synonym 'b outcome = "error option \<times> 'b state"

text \<open>The fields of \<^verbatim>\<open>ConvolutionOp\<close> that \<^verbatim>\<open>SmvConvolutionOp\<close> reads.\<close>

record Op =
  inputTensor :: addr
  kernelsTensor :: addr
  outputTensor :: addr
  weightRows :: int
  weightCols :: int
  rowStride :: int
  colStride :: int

section \<open>runNHWC\<close>

definition dims4 :: "TensorShape \<Rightarrow> int list" where
  "dims4 sh = [shapeAt sh I0, shapeAt sh I1, shapeAt sh I2, shapeAt sh I3]"

text \<open>
  The body of the \<^verbatim>\<open>while\<close> loop up to and including the kernel call (lines 31 to 60):
  the three indices are computed for the diagnostic line, the three tiles are fetched,
  their shapes are read, and the kernel is invoked. The kernel's result replaces the
  data of the output tile.
\<close>

definition invokeKernel ::
  "'b kernel \<Rightarrow> Op \<Rightarrow> TiledTensor \<Rightarrow> TiledTensor \<Rightarrow> TiledTensor \<Rightarrow>
   int \<Rightarrow> int \<Rightarrow> int \<Rightarrow> int \<Rightarrow> int \<Rightarrow> 'b state \<Rightarrow> 'b outcome" where
  "invokeKernel k op inputs weights outputs N H W iC wC s =
     (case startIndex inputs N H 0 iC of Inl e \<Rightarrow> (Some e, s) | Inr ii \<Rightarrow>
     (case startIndex weights W 0 0 wC of Inl e \<Rightarrow> (Some e, s) | Inr wi \<Rightarrow>
     (case startIndex outputs N H 0 W of Inl e \<Rightarrow> (Some e, s) | Inr oi \<Rightarrow>
     (case tileAt inputs ii of Inl e \<Rightarrow> (Some e, s) | Inr inputTile \<Rightarrow>
     (case tileAt weights wi of Inl e \<Rightarrow> (Some e, s) | Inr weightsTile \<Rightarrow>
     (case tileAt outputs oi of Inl e \<Rightarrow> (Some e, s) | Inr outputTile \<Rightarrow>
      (let inputShape = shape (heap s inputTile);
           weightsShape = shape (heap s weightsTile);
           outputShape = shape (heap s outputTile);
           call = \<lparr> kInputs = inputTile, kWeights = weightsTile, kResults = outputTile,
                    kInputDims = dims4 inputShape,
                    kWeightsDims = dims4 weightsShape,
                    kResultsDims = dims4 outputShape,
                    kInputPad = getPadding inputShape I3,
                    kWeightsPad = getPadding weightsShape I3,
                    kResultsPad = getPadding outputShape I3,
                    kRowStride = rowStride op,
                    kColStride = colStride op,
                    kFilterTile = W,
                    kChanTile = iC,
                    kFlag = (iC = wC) \<rparr>;
           result = k call (data (heap s inputTile)) (data (heap s weightsTile))
                      (data (heap s outputTile))
       in (None, s\<lparr> heap := (heap s)(outputTile := (heap s outputTile)\<lparr> data := result \<rparr>),
                    trace := trace s @
                      [KernelInvoked \<lparr> inCoord = (N, H, 0, iC), wCoord = (W, 0, 0, wC),
                                       outCoord = (N, H, 0, W), args = call \<rparr>] \<rparr>))))))))"

text \<open>
  The channel-tile reconciliation loop (lines 30 to 70), from the cursors \<open>iC\<close>, \<open>wC\<close>.
\<close>

function chanLoop ::
  "'b kernel \<Rightarrow> Op \<Rightarrow> TiledTensor \<Rightarrow> TiledTensor \<Rightarrow> TiledTensor \<Rightarrow>
   int \<Rightarrow> int \<Rightarrow> int \<Rightarrow> int \<Rightarrow> int \<Rightarrow> int \<Rightarrow> int \<Rightarrow> 'b state \<Rightarrow> 'b outcome" where
  "chanLoop k op inputs weights outputs N H W inputChanTiles weightChanTiles iC wC s =
     (if iC < inputChanTiles \<and> wC < weightChanTiles then
        (case invokeKernel k op inputs weights outputs N H W iC wC s of
           (Some e, s') \<Rightarrow> (Some e, s')
         | (None, s') \<Rightarrow>
             if inputChanTiles = weightChanTiles then
               chanLoop k op inputs weights outputs N H W inputChanTiles weightChanTiles
                 (iC + 1) (wC + 1) s'
             else if inputChanTiles = 1 then
               chanLoop k op inputs weights outputs N H W inputChanTiles weightChanTiles
                 iC (wC + 1) s'
             else
               chanLoop k op inputs weights outputs N H W inputChanTiles weightChanTiles
                 (iC + 1) wC s')
      else (None, s))"
  by pat_completeness auto
termination
  by (relation "measure (\<lambda>(k, op, inputs, weights, outputs, N, H, W, ic, wc, iC, wC, s).
                   nat (ic - iC) + nat (wc - wC))") auto

declare chanLoop.simps [simp del]

text \<open>
  \<^verbatim>\<open>for (int i = lo; i < hi; i++) body\<close>, stopping at the first failure of the body.
\<close>

function forLoop ::
  "int \<Rightarrow> int \<Rightarrow> (int \<Rightarrow> 's \<Rightarrow> error option \<times> 's) \<Rightarrow> 's \<Rightarrow> error option \<times> 's" where
  "forLoop i hi body s =
     (if i < hi then
        (case body i s of
           (Some e, s') \<Rightarrow> (Some e, s')
         | (None, s') \<Rightarrow> forLoop (i + 1) hi body s')
      else (None, s))"
  by pat_completeness auto
termination
  by (relation "measure (\<lambda>(i, hi, body, s). nat (hi - i))") auto

declare forLoop.simps [simp del]

definition runNHWC ::
  "'b kernel \<Rightarrow> Op \<Rightarrow> TiledTensor \<Rightarrow> TiledTensor \<Rightarrow> TiledTensor \<Rightarrow> 'b state \<Rightarrow> 'b outcome" where
  "runNHWC k op inputs weights outputs =
     forLoop 0 (shapeAt (gridShape inputs) I0) (\<lambda>N.
       forLoop 0 (shapeAt (gridShape inputs) I1) (\<lambda>H.
         forLoop 0 (shapeAt (gridShape weights) I0) (\<lambda>W.
           chanLoop k op inputs weights outputs N H W
             (shapeAt (gridShape inputs) I3) (shapeAt (gridShape weights) I3) 0 0)))"

section \<open>run\<close>

text \<open>The two hardware constants of namespace \<^verbatim>\<open>smaug::smv::conv\<close> (lines 12 and 13).\<close>

definition kNumPEs :: int where
  "kNumPEs = 8"

definition kNumMaccsPerPE :: int where
  "kNumMaccsPerPE = 32"

text \<open>\<^verbatim>\<open>getInputDataLayouts\<close> and \<^verbatim>\<open>getOutputDataLayouts\<close> of \<^verbatim>\<open>smv_convolution_op.h\<close>.\<close>

definition getInputDataLayouts :: "DataLayout set" where
  "getInputDataLayouts = {NHWC}"

definition getOutputDataLayouts :: "DataLayout set" where
  "getOutputDataLayouts = {NHWC}"

text \<open>\<^verbatim>\<open>TilingConfig\<close>: the tile shapes for the inputs, the weights and the outputs.\<close>

record TilingConfig =
  inputsTile :: TensorShape
  weightsTile :: TensorShape
  outputsTile :: TensorShape

text \<open>
  The class \<^verbatim>\<open>TilingOptimizer\<close> (\<^verbatim>\<open>smv_convolution_tiling.h\<close>) is not part of the sources at
  hand; \<^verbatim>\<open>run\<close> only calls it. Its two functions are parameters of the model.
  \<^verbatim>\<open>computeBasicTileShapes\<close> receives the operator; it can read the two hardware constants
  and the tensors the operator points to. \<^verbatim>\<open>generateTiledTensor\<close> receives a tensor, a tile
  shape and the halos, and returns a tiled tensor whose tiles it has put in the store.
\<close>

record 'b TilingOptimizer =
  optComputeBasicTileShapes :: "int \<Rightarrow> int \<Rightarrow> Op \<Rightarrow> 'b heap \<Rightarrow> TilingConfig"
  optGenerateTiledTensor ::
    "addr \<Rightarrow> TensorShape \<Rightarrow> int list \<Rightarrow> 'b heap \<Rightarrow> TiledTensor \<times> 'b heap"

text \<open>
  \<^verbatim>\<open>SmvConvolutionOp::run\<close> (lines 76 to 99), with assertions enabled. An \<^verbatim>\<open>assert\<close> that
  fails aborts the program: the run ends there with \<open>AssertionFailure\<close>. The debug print of line 87 has no
  effect on the state. \<^verbatim>\<open>weightRows / 2\<close> is C++ integer division, which truncates towards
  zero (\<open>sdiv\<close>). Each call into the optimizer is recorded in the trace before it is made.
\<close>

definition run :: "'b TilingOptimizer \<Rightarrow> 'b kernel \<Rightarrow> Op \<Rightarrow> 'b state \<Rightarrow> 'b outcome" where
  "run opt k op s =
     (let input = inputTensor op;
          kernels = kernelsTensor op;
          output = outputTensor op;
          inputShape = shape (heap s input);
          kernelShape = shape (heap s kernels);
          outputShape = shape (heap s output)
      in if layout inputShape \<noteq> NHWC then (Some AssertionFailure, s)
         else if layout kernelShape \<noteq> NHWC then (Some AssertionFailure, s)
         else if layout outputShape \<noteq> NHWC then (Some AssertionFailure, s)
         else
           (let s1 = s\<lparr> trace := trace s @ [ComputeBasicTileShapes] \<rparr>;
                tileShapes = optComputeBasicTileShapes opt kNumPEs kNumMaccsPerPE op (heap s1);
                inputHalos = [0, weightRows op sdiv 2, weightCols op sdiv 2, 0];
                s2 = s1\<lparr> trace := trace s1 @
                       [GenerateTiledTensor input (inputsTile tileShapes) inputHalos] \<rparr>;
                (tiledInputs, h2) =
                   optGenerateTiledTensor opt input (inputsTile tileShapes) inputHalos (heap s2);
                s3 = s2\<lparr> heap := h2, trace := trace s2 @
                       [GenerateTiledTensor kernels (weightsTile tileShapes) [0, 0, 0, 0]] \<rparr>;
                (tiledWeights, h3) =
                   optGenerateTiledTensor opt kernels (weightsTile tileShapes) [0, 0, 0, 0] (heap s3);
                s4 = s3\<lparr> heap := h3, trace := trace s3 @
                       [GenerateTiledTensor output (outputsTile tileShapes) [0, 0, 0, 0]] \<rparr>;
                (tiledOutputs, h4) =
                   optGenerateTiledTensor opt output (outputsTile tileShapes) [0, 0, 0, 0] (heap s4);
                s5 = s4\<lparr> heap := h4 \<rparr>
            in runNHWC k op tiledInputs tiledWeights tiledOutputs s5))"

section \<open>Tiling a tensor\<close>

text \<open>
  \<^verbatim>\<open>TilingOptimizer::generateTiledTensor\<close> is called by \<^verbatim>\<open>run\<close> but is not part of the
  sources at hand. This section models it from the spec, on tensors whose data is given
  as a four-dimensional array: a list over the first axis of lists over the second axis,
  and so on.
\<close>

type_synonym 'a data4 = "'a list list list list"

text \<open>
  Modelled from the spec: the number of tiles along one axis of extent \<open>n\<close> for tiles of
  extent \<open>t\<close>. "Edge tiles may be smaller than interior tiles when the origin extent does
  not divide evenly by tile size": the last tile takes what is left.
\<close>

definition axisTiles :: "nat \<Rightarrow> nat \<Rightarrow> nat" where
  "axisTiles n t = (n + t - 1) div t"

text \<open>
  Modelled from the spec: tile \<open>k\<close> along one axis. Its own elements are those at positions
  \<open>k * t\<close> up to \<open>(k + 1) * t\<close>; it "additionally includ[es] halo_spec[axis] elements of
  overlap borrowed from the adjacent region of the source tensor (clamped at the source
  tensor's boundary ...)" on each side. Of the two treatments of a boundary tile the spec
  allows ("zero-padding or truncated halo"), this is the truncated halo.
\<close>

definition axisSlice :: "nat \<Rightarrow> nat \<Rightarrow> nat \<Rightarrow> 'b list \<Rightarrow> 'b list" where
  "axisSlice t h k xs =
     (let lo = (if k * t < h then 0 else k * t - h);
          hi = min (length xs) ((k + 1) * t + h)
      in take (hi - lo) (drop lo xs))"

text \<open>
  What is left of tile \<open>k\<close> along one axis once the halo is taken off: the left halo has
  \<open>min h (k * t)\<close> elements, and the tile's own elements are at most \<open>t\<close>.
\<close>

definition axisCore :: "nat \<Rightarrow> nat \<Rightarrow> nat \<Rightarrow> 'b list \<Rightarrow> 'b list" where
  "axisCore t h k ys = take t (drop (min h (k * t)) ys)"

text \<open>Putting the blocks of a list together with a binary operation; no block, no data.\<close>

fun joinWith :: "('b list \<Rightarrow> 'b list \<Rightarrow> 'b list) \<Rightarrow> 'b list list \<Rightarrow> 'b list" where
  "joinWith f [] = []"
| "joinWith f [b] = b"
| "joinWith f (b # bs) = f b (joinWith f bs)"

type_synonym nat4 = "nat \<times> nat \<times> nat \<times> nat"

text \<open>
  Modelled from the spec: the data of the tile at grid coordinate \<open>k\<close>, for tile extents
  \<open>t\<close> and halos \<open>h\<close>: the source is cut along each of the four axes.
\<close>

definition tileData :: "nat4 \<Rightarrow> nat4 \<Rightarrow> nat4 \<Rightarrow> 'a data4 \<Rightarrow> 'a data4" where
  "tileData t h k src =
     map (map (map (axisSlice (nth4 t I3) (nth4 h I3) (nth4 k I3))))
       (map (map (axisSlice (nth4 t I2) (nth4 h I2) (nth4 k I2)))
         (map (axisSlice (nth4 t I1) (nth4 h I1) (nth4 k I1))
           (axisSlice (nth4 t I0) (nth4 h I0) (nth4 k I0) src)))"

text \<open>The data of a tile without its halos, on all four axes.\<close>

definition tileCore :: "nat4 \<Rightarrow> nat4 \<Rightarrow> nat4 \<Rightarrow> 'a data4 \<Rightarrow> 'a data4" where
  "tileCore t h k tile =
     map (map (map (axisCore (nth4 t I3) (nth4 h I3) (nth4 k I3))))
       (map (map (axisCore (nth4 t I2) (nth4 h I2) (nth4 k I2)))
         (map (axisCore (nth4 t I1) (nth4 h I1) (nth4 k I1))
           (axisCore (nth4 t I0) (nth4 h I0) (nth4 k I0) tile)))"

text \<open>
  The linear index of a grid coordinate and the grid coordinates in the order of their
  linear index (row-major, as for \<open>startIndex\<close>).
\<close>

definition tileIndex :: "nat4 \<Rightarrow> nat4 \<Rightarrow> nat" where
  "tileIndex g k =
     ((nth4 k I0 * nth4 g I1 + nth4 k I1) * nth4 g I2 + nth4 k I2) * nth4 g I3 + nth4 k I3"

definition gridCoords :: "nat4 \<Rightarrow> nat4 list" where
  "gridCoords g =
     concat (map (\<lambda>a. concat (map (\<lambda>b. concat (map (\<lambda>c. map (\<lambda>d. (a, b, c, d))
       [0..<nth4 g I3]) [0..<nth4 g I2])) [0..<nth4 g I1])) [0..<nth4 g I0])"

text \<open>
  The result of tiling, by value: the tile grid, the tile extents and halos it was made
  with, and the tiles in the order of their linear index. (In the operator the slots of a
  \<^verbatim>\<open>TiledTensor\<close> point to these tiles.)
\<close>

record 'a TiledData =
  tdGrid :: nat4
  tdTileExtent :: nat4
  tdHalo :: nat4
  tdTiles :: "'a data4 Tensor list"

text \<open>Extents and halos as natural numbers; a missing or negative halo counts as 0.\<close>

definition natDims :: "TensorShape \<Rightarrow> nat4" where
  "natDims sh = (nat (shapeAt sh I0), nat (shapeAt sh I1), nat (shapeAt sh I2), nat (shapeAt sh I3))"

definition haloAt :: "int list \<Rightarrow> nat \<Rightarrow> nat" where
  "haloAt halos i = (if i < length halos then nat (halos ! i) else 0)"

text \<open>The extent of tile \<open>k\<close> along one axis, halos included, and the shape of a tile.\<close>

definition axisExtent :: "nat \<Rightarrow> nat \<Rightarrow> nat \<Rightarrow> nat \<Rightarrow> nat" where
  "axisExtent n t h k = min n ((k + 1) * t + h) - (if k * t < h then 0 else k * t - h)"

definition tileShapeAt :: "TensorShape \<Rightarrow> nat4 \<Rightarrow> nat4 \<Rightarrow> nat4 \<Rightarrow> TensorShape" where
  "tileShapeAt srcShape t h k =
     \<lparr> dims = (int (axisExtent (nth4 (natDims srcShape) I0) (nth4 t I0) (nth4 h I0) (nth4 k I0)),
                int (axisExtent (nth4 (natDims srcShape) I1) (nth4 t I1) (nth4 h I1) (nth4 k I1)),
                int (axisExtent (nth4 (natDims srcShape) I2) (nth4 t I2) (nth4 h I2) (nth4 k I2)),
                int (axisExtent (nth4 (natDims srcShape) I3) (nth4 t I3) (nth4 h I3) (nth4 k I3))),
       padding = (0, 0, 0, 0),
       layout = layout srcShape \<rparr>"

text \<open>
  Modelled from the spec: \<^verbatim>\<open>generateTiledTensor(source_tensor, tile_shape, halo_spec)\<close>
  "partitions source_tensor into a grid of tiles of tile_shape, with each tile along a
  haloed axis additionally including halo_spec[axis] elements of overlap borrowed from
  the adjacent region of the source tensor (clamped at the source tensor's boundary ...).
  Returns the populated TiledTensor."
\<close>

definition generateTiledTensor :: "'a data4 Tensor \<Rightarrow> TensorShape \<Rightarrow> int list \<Rightarrow> 'a TiledData" where
  "generateTiledTensor src tileShape halos =
     (let n = natDims (shape src);
          t = natDims tileShape;
          h = (haloAt halos 0, haloAt halos 1, haloAt halos 2, haloAt halos 3);
          g = (axisTiles (nth4 n I0) (nth4 t I0), axisTiles (nth4 n I1) (nth4 t I1),
               axisTiles (nth4 n I2) (nth4 t I2), axisTiles (nth4 n I3) (nth4 t I3))
      in \<lparr> tdGrid = g, tdTileExtent = t, tdHalo = h,
           tdTiles = map (\<lambda>k. \<lparr> shape = tileShapeAt (shape src) t h k,
                                 data = tileData t h k (data src) \<rparr>) (gridCoords g) \<rparr>)"

text \<open>
  "Concatenating a TiledTensor's tiles (subtracting halo overlap)": each tile is fetched
  by its linear index, its halos are taken off, and the tiles are put side by side along
  the fourth axis, then the third, the second and the first.
\<close>

definition reconstruct :: "'a TiledData \<Rightarrow> 'a data4" where
  "reconstruct td =
     concat (map (\<lambda>a.
       joinWith (map2 (@)) (map (\<lambda>b.
         joinWith (map2 (map2 (@))) (map (\<lambda>c.
           joinWith (map2 (map2 (map2 (@)))) (map (\<lambda>d.
             tileCore (tdTileExtent td) (tdHalo td) (a, b, c, d)
               (data (tdTiles td ! tileIndex (tdGrid td) (a, b, c, d))))
             [0..<nth4 (tdGrid td) I3]))
           [0..<nth4 (tdGrid td) I2]))
         [0..<nth4 (tdGrid td) I1]))
       [0..<nth4 (tdGrid td) I0])"

text \<open>
  A tensor whose data has the extents its shape declares, all of them positive
  ("extents are positive integers").
\<close>

definition conforms :: "'a data4 Tensor \<Rightarrow> bool" where
  "conforms T \<longleftrightarrow>
     0 < shapeAt (shape T) I0 \<and> 0 < shapeAt (shape T) I1 \<and>
     0 < shapeAt (shape T) I2 \<and> 0 < shapeAt (shape T) I3 \<and>
     int (length (data T)) = shapeAt (shape T) I0 \<and>
     (\<forall>p\<in>set (data T). int (length p) = shapeAt (shape T) I1 \<and>
        (\<forall>q\<in>set p. int (length q) = shapeAt (shape T) I2 \<and>
           (\<forall>r\<in>set q. int (length r) = shapeAt (shape T) I3)))"

section \<open>Notions used to state the properties\<close>


text \<open>
  What decides where an invocation goes: the three tile coordinates and the last three
  arguments of the call (\<^verbatim>\<open>W\<close>, \<^verbatim>\<open>iC\<close>, \<^verbatim>\<open>iC == wC\<close>). \<open>expected N H W (iC, wC)\<close> is what the
  loop body dispatches in iteration (N, H, W) at cursors (iC, wC).
\<close>

type_synonym dispatch = "coord \<times> coord \<times> coord \<times> int \<times> int \<times> bool"

definition dispatchOf :: "Invocation \<Rightarrow> dispatch" where
  "dispatchOf iv = (inCoord iv, wCoord iv, outCoord iv,
                    kFilterTile (args iv), kChanTile (args iv), kFlag (args iv))"


definition expected :: "int \<Rightarrow> int \<Rightarrow> int \<Rightarrow> int \<times> int \<Rightarrow> dispatch" where
  "expected N H W p = ((N, H, 0, fst p), (W, 0, 0, snd p), (N, H, 0, W), W, fst p, fst p = snd p)"




text \<open>The addresses of the tiles of a tiled tensor.\<close>

definition tileAddrs :: "TiledTensor \<Rightarrow> addr set" where
  "tileAddrs t = Option.these (set (slots t))"



section \<open>Concrete inputs\<close>

text \<open>
  An NHWC shape without padding; a tiled tensor with the given grid and tile addresses;
  a store in which every tensor is 1x1x1x1 with data 0; a kernel that counts the writes
  to an output tile; an operator with a 3x3 kernel extent and strides 1.
\<close>

definition mkShape :: "int \<times> int \<times> int \<times> int \<Rightarrow> TensorShape" where
  "mkShape d = \<lparr> dims = d, padding = (0, 0, 0, 0), layout = NHWC \<rparr>"

definition mkTiled :: "int \<times> int \<times> int \<times> int \<Rightarrow> addr list \<Rightarrow> TiledTensor" where
  "mkTiled d as = \<lparr> gridShape = mkShape d, slots = map Some as \<rparr>"

definition exHeap :: "nat heap" where
  "exHeap = (\<lambda>a. \<lparr> shape = mkShape (1, 1, 1, 1), data = 0 \<rparr>)"

definition exKernel :: "nat kernel" where
  "exKernel call i w out = Suc out"

definition exOp :: Op where
  "exOp = \<lparr> inputTensor = 100, kernelsTensor = 101, outputTensor = 102,
            weightRows = 3, weightCols = 3, rowStride = 1, colStride = 1 \<rparr>"

definition exState :: "nat state" where
  "exState = \<lparr> heap = exHeap, trace = [] \<rparr>"

text \<open>
  An optimizer for concrete runs: the tile shapes are the shapes of the whole tensors,
  and a tensor is tiled into a grid of one tile, the tensor itself.
\<close>

definition wholeTensorOptimizer :: "'b TilingOptimizer" where
  "wholeTensorOptimizer =
     \<lparr> optComputeBasicTileShapes = (\<lambda>pes maccs op h.
          \<lparr> inputsTile = shape (h (inputTensor op)),
            weightsTile = shape (h (kernelsTensor op)),
            outputsTile = shape (h (outputTensor op)) \<rparr>),
       optGenerateTiledTensor = (\<lambda>t tileShape halos h.
          (\<lparr> gridShape = mkShape (1, 1, 1, 1), slots = [Some t] \<rparr>, h)) \<rparr>"

text \<open>
  A store for concrete runs of \<^verbatim>\<open>run\<close>: an 1x8x8x4 input at address 100, eight 5x5x4
  kernels at address 101 and an 1x8x8x8 output at address 102.
\<close>

definition convHeap :: "nat heap" where
  "convHeap = (\<lambda>a. \<lparr> shape = mkShape (1, 1, 1, 1), data = 0 \<rparr>)
     (100 := \<lparr> shape = mkShape (1, 8, 8, 4), data = 0 \<rparr>,
      101 := \<lparr> shape = mkShape (8, 5, 5, 4), data = 0 \<rparr>,
      102 := \<lparr> shape = mkShape (1, 8, 8, 8), data = 0 \<rparr>)"

definition convState :: "nat state" where
  "convState = \<lparr> heap = convHeap, trace = [] \<rparr>"

text \<open>The same store with the input tensor in NCHW layout.\<close>

definition nchwState :: "nat state" where
  "nchwState = \<lparr> heap = convHeap
     (100 := \<lparr> shape = \<lparr> dims = (1, 4, 8, 8), padding = (0, 0, 0, 0), layout = NCHW \<rparr>,
              data = 0 \<rparr>), trace = [] \<rparr>"

text \<open>
  A kernel that appends the last argument it receives to the output buffer, so that the
  buffer of an output tile lists the flags of the calls made on it, in order; and a store
  of empty buffers for it.
\<close>

definition flagLog :: "bool list kernel" where
  "flagLog call i w out = out @ [kFlag call]"

definition logState :: "bool list state" where
  "logState = \<lparr> heap = (\<lambda>a. \<lparr> shape = mkShape (1, 1, 1, 1), data = [] \<rparr>), trace = [] \<rparr>"

text \<open>
  An operator with a 5x3 kernel extent. An optimizer that tiles a tensor into a grid of
  one tile, the tensor itself, and leaves in its buffer the halos it was called with; a
  kernel that leaves the output buffer as it is; a store with an 1x8x8x4 input at address
  100, eight 5x3x4 kernels at address 101 and an 1x8x8x8 output at address 102.
\<close>

definition haloOp :: Op where
  "haloOp = \<lparr> inputTensor = 100, kernelsTensor = 101, outputTensor = 102,
              weightRows = 5, weightCols = 3, rowStride = 1, colStride = 1 \<rparr>"

definition haloLogOptimizer :: "int list TilingOptimizer" where
  "haloLogOptimizer =
     \<lparr> optComputeBasicTileShapes = (\<lambda>pes maccs op h.
          \<lparr> inputsTile = shape (h (inputTensor op)),
            weightsTile = shape (h (kernelsTensor op)),
            outputsTile = shape (h (outputTensor op)) \<rparr>),
       optGenerateTiledTensor = (\<lambda>t tileShape halos h.
          (\<lparr> gridShape = mkShape (1, 1, 1, 1), slots = [Some t] \<rparr>,
           h(t := (h t)\<lparr> data := halos \<rparr>))) \<rparr>"

definition keepKernel :: "int list kernel" where
  "keepKernel call i w out = out"

definition haloState :: "int list state" where
  "haloState = \<lparr> heap = (\<lambda>a. \<lparr> shape = mkShape (1, 1, 1, 1), data = [] \<rparr>)
       (100 := \<lparr> shape = mkShape (1, 8, 8, 4), data = [] \<rparr>,
        101 := \<lparr> shape = mkShape (8, 5, 3, 4), data = [] \<rparr>,
        102 := \<lparr> shape = mkShape (1, 8, 8, 8), data = [] \<rparr>), trace = [] \<rparr>"

text \<open>A 1x1x5x2 tensor, to be cut into tiles of extent 2 along the third axis.\<close>

definition exSource :: "nat data4 Tensor" where
  "exSource = \<lparr> shape = mkShape (1, 1, 5, 2),
                data = [[[[1, 2], [3, 4], [5, 6], [7, 8], [9, 10]]]] \<rparr>"

section \<open>Properties of the loops\<close>



lemma invokeKernel_fail:
  "invokeKernel k op inputs weights outputs N H W iC wC s = (Some e, s') \<Longrightarrow>
   s' = s \<and> e \<noteq> AssertionFailure"
  by (auto simp: invokeKernel_def Let_def startIndex_def tileAt_def
           split: sum.splits if_splits option.splits)

lemma invokeKernel_trace:
  "invokeKernel k op inputs weights outputs N H W iC wC s = (None, s') \<Longrightarrow>
   \<exists>iv. trace s' = trace s @ [KernelInvoked iv] \<and> dispatchOf iv = expected N H W (iC, wC)"
  by (auto simp: invokeKernel_def Let_def dispatchOf_def expected_def split: sum.splits)


lemma tileAt_addr: "tileAt t i = Inr a \<Longrightarrow> a \<in> tileAddrs t"
  by (auto simp: tileAt_def tileAddrs_def in_these_eq split: if_splits option.splits)
     (metis nth_mem)

lemma invokeKernel_frame:
  "invokeKernel k op inputs weights outputs N H W iC wC s = (r, s') \<Longrightarrow>
   a \<notin> tileAddrs outputs \<Longrightarrow> heap s' a = heap s a"
  by (auto simp: invokeKernel_def Let_def split: sum.splits dest: tileAt_addr)

lemma invokeKernel_shape:
  "invokeKernel k op inputs weights outputs N H W iC wC s = (r, s') \<Longrightarrow>
   shape (heap s' a) = shape (heap s a)"
  by (auto simp: invokeKernel_def Let_def split: sum.splits)

lemma invokeKernel_applies:
  assumes "invokeKernel k op inputs weights outputs N H W iC wC s = (None, s')"
  shows "\<exists>iv. trace s' = trace s @ [KernelInvoked iv] \<and>
      inCoord iv = (N, H, 0, iC) \<and> wCoord iv = (W, 0, 0, wC) \<and> outCoord iv = (N, H, 0, W) \<and>
      kFlag (args iv) = (iC = wC) \<and>
      heap s' = (heap s)(kResults (args iv) := (heap s (kResults (args iv)))
        \<lparr> data := k (args iv) (data (heap s (kInputs (args iv))))
                    (data (heap s (kWeights (args iv))))
                    (data (heap s (kResults (args iv)))) \<rparr>)"
  using assms by (auto simp: invokeKernel_def Let_def split: sum.splits)

lemma chanLoop_stop:
  "\<not> (iC < ic \<and> wC < wc) \<Longrightarrow>
   chanLoop k op inputs weights outputs N H W ic wc iC wC s = (None, s)"
  by (subst chanLoop.simps) (simp only: if_False)

lemma chanLoop_abort:
  "iC < ic \<Longrightarrow> wC < wc \<Longrightarrow>
   invokeKernel k op inputs weights outputs N H W iC wC s = (Some e, s1) \<Longrightarrow>
   chanLoop k op inputs weights outputs N H W ic wc iC wC s = (Some e, s1)"
  by (subst chanLoop.simps) simp

lemma chanLoop_step:
  "iC < ic \<Longrightarrow> wC < wc \<Longrightarrow>
   invokeKernel k op inputs weights outputs N H W iC wC s = (None, s1) \<Longrightarrow>
   chanLoop k op inputs weights outputs N H W ic wc iC wC s =
   chanLoop k op inputs weights outputs N H W ic wc
     (if ic = wc then iC + 1 else if ic = 1 then iC else iC + 1)
     (if ic = wc then wC + 1 else if ic = 1 then wC + 1 else wC) s1"
  by (subst chanLoop.simps) simp



lemma chanLoop_rel:
  assumes refl: "\<And>s. R s s"
    and trans: "\<And>a b c. R a b \<Longrightarrow> R b c \<Longrightarrow> R a c"
    and step: "\<And>iC wC s r s'.
       invokeKernel k op inputs weights outputs N H W iC wC s = (r, s') \<Longrightarrow> R s s'"
  shows "chanLoop k op inputs weights outputs N H W ic wc iC wC s = (r, s') \<Longrightarrow> R s s'"
proof (induction "nat (ic - iC) + nat (wc - wC)" arbitrary: iC wC s rule: less_induct)
  case less
  show ?case
  proof (cases "iC < ic \<and> wC < wc")
    case False
    with less.prems show ?thesis
      by (simp add: chanLoop_stop refl)
  next
    case True
    obtain r1 s1 where st: "invokeKernel k op inputs weights outputs N H W iC wC s = (r1, s1)"
      by (cases "invokeKernel k op inputs weights outputs N H W iC wC s")
    have R1: "R s s1" using step st .
    show ?thesis
    proof (cases r1)
      case (Some e)
      with True st less.prems have "s' = s1" by (simp add: chanLoop_abort)
      with R1 show ?thesis by simp
    next
      case None
      let ?iC = "if ic = wc then iC + 1 else if ic = 1 then iC else iC + 1"
      let ?wC = "if ic = wc then wC + 1 else if ic = 1 then wC + 1 else wC"
      have rest: "chanLoop k op inputs weights outputs N H W ic wc ?iC ?wC s1 = (r, s')"
        using chanLoop_step[of iC ic wC wc k op inputs weights outputs N H W s s1]
          True st None less.prems by simp
      have "nat (ic - ?iC) + nat (wc - ?wC) < nat (ic - iC) + nat (wc - wC)"
        using True by auto
      from less.hyps[OF this rest] have "R s1 s'" .
      with R1 show ?thesis by (rule trans)
    qed
  qed
qed

lemma chanLoop_error:
  "chanLoop k op inputs weights outputs N H W ic wc iC wC s = (Some e, s') \<Longrightarrow>
   e \<noteq> AssertionFailure"
proof (induction "nat (ic - iC) + nat (wc - wC)" arbitrary: iC wC s rule: less_induct)
  case less
  show ?case
  proof (cases "iC < ic \<and> wC < wc")
    case False
    with less.prems show ?thesis
      by (simp add: chanLoop_stop)
  next
    case True
    obtain r1 s1 where st: "invokeKernel k op inputs weights outputs N H W iC wC s = (r1, s1)"
      by (cases "invokeKernel k op inputs weights outputs N H W iC wC s")
    show ?thesis
    proof (cases r1)
      case (Some e1)
      with True st less.prems have "e = e1" by (simp add: chanLoop_abort)
      with st Some show ?thesis by (auto dest: invokeKernel_fail)
    next
      case None
      let ?iC = "if ic = wc then iC + 1 else if ic = 1 then iC else iC + 1"
      let ?wC = "if ic = wc then wC + 1 else if ic = 1 then wC + 1 else wC"
      have rest: "chanLoop k op inputs weights outputs N H W ic wc ?iC ?wC s1 = (Some e, s')"
        using chanLoop_step[of iC ic wC wc k op inputs weights outputs N H W s s1]
          True st None less.prems by simp
      have "nat (ic - ?iC) + nat (wc - ?wC) < nat (ic - iC) + nat (wc - wC)"
        using True by auto
      from less.hyps[OF this rest] show ?thesis .
    qed
  qed
qed








lemma forLoop_stop: "\<not> i < hi \<Longrightarrow> forLoop i hi body s = (None, s)"
  by (subst forLoop.simps) simp

lemma forLoop_abort:
  "i < hi \<Longrightarrow> body i s = (Some e, s1) \<Longrightarrow> forLoop i hi body s = (Some e, s1)"
  by (subst forLoop.simps) simp

lemma forLoop_step:
  "i < hi \<Longrightarrow> body i s = (None, s1) \<Longrightarrow> forLoop i hi body s = forLoop (i + 1) hi body s1"
  by (subst forLoop.simps) simp

lemma forLoop_rel:
  assumes refl: "\<And>s. R s s"
    and trans: "\<And>a b c. R a b \<Longrightarrow> R b c \<Longrightarrow> R a c"
    and step: "\<And>j s r s'. body j s = (r, s') \<Longrightarrow> R s s'"
  shows "forLoop i hi body s = (r, s') \<Longrightarrow> R s s'"
proof (induction "nat (hi - i)" arbitrary: i s rule: less_induct)
  case less
  show ?case
  proof (cases "i < hi")
    case False
    with less.prems show ?thesis by (simp add: forLoop_stop refl)
  next
    case True
    obtain r1 s1 where st: "body i s = (r1, s1)" by (cases "body i s")
    have R1: "R s s1" using step st .
    show ?thesis
    proof (cases r1)
      case (Some e)
      with True st less.prems have "s' = s1" by (simp add: forLoop_abort)
      with R1 show ?thesis by simp
    next
      case None
      have rest: "forLoop (i + 1) hi body s1 = (r, s')"
        using forLoop_step[of i hi body s s1] True st None less.prems by simp
      have "nat (hi - (i + 1)) < nat (hi - i)" using True by auto
      from less.hyps[OF this rest] have "R s1 s'" .
      with R1 show ?thesis by (rule trans)
    qed
  qed
qed

lemma forLoop_error:
  assumes step: "\<And>j s e s'. body j s = (Some e, s') \<Longrightarrow> E e"
  shows "forLoop i hi body s = (Some e, s') \<Longrightarrow> E e"
proof (induction "nat (hi - i)" arbitrary: i s rule: less_induct)
  case less
  show ?case
  proof (cases "i < hi")
    case False
    with less.prems show ?thesis by (simp add: forLoop_stop)
  next
    case True
    obtain r1 s1 where st: "body i s = (r1, s1)" by (cases "body i s")
    show ?thesis
    proof (cases r1)
      case (Some e1)
      with True st less.prems have "e = e1" by (simp add: forLoop_abort)
      with st Some step show ?thesis by blast
    next
      case None
      have rest: "forLoop (i + 1) hi body s1 = (Some e, s')"
        using forLoop_step[of i hi body s s1] True st None less.prems by simp
      have "nat (hi - (i + 1)) < nat (hi - i)" using True by auto
      from less.hyps[OF this rest] show ?thesis .
    qed
  qed
qed

lemmas ex_defs = mkShape_def mkTiled_def exHeap_def exKernel_def exOp_def exState_def
  runNHWC_def invokeKernel_def startIndex_def tileAt_def shapeAt_def getPadding_def dims4_def


lemma runNHWC_rel:
  assumes refl: "\<And>s. R s s"
    and trans: "\<And>a b c. R a b \<Longrightarrow> R b c \<Longrightarrow> R a c"
    and step: "\<And>N H W iC wC s r s'.
       invokeKernel k op inputs weights outputs N H W iC wC s = (r, s') \<Longrightarrow> R s s'"
  shows "runNHWC k op inputs weights outputs s = (r, s') \<Longrightarrow> R s s'"
proof -
  have c: "R s s'"
    if "chanLoop k op inputs weights outputs N H W ic wc iC wC s = (r, s')"
    for N H W ic wc iC wC s r s'
    using that
    by (rule chanLoop_rel[where R = R, rotated 3]) (rule refl, erule trans, assumption, erule step)
  have w: "R s s'"
    if "forLoop i hi (\<lambda>W. chanLoop k op inputs weights outputs N H W ic wc 0 0) s = (r, s')"
    for N H i hi ic wc s r s'
    using that
    by (rule forLoop_rel[where R = R, rotated 3]) (rule refl, erule trans, assumption, erule c)
  have h: "R s s'"
    if "forLoop i hi (\<lambda>H. forLoop j hj
          (\<lambda>W. chanLoop k op inputs weights outputs N H W ic wc 0 0)) s = (r, s')"
    for N i hi j hj ic wc s r s'
    using that
    by (rule forLoop_rel[where R = R, rotated 3]) (rule refl, erule trans, assumption, erule w)
  show "runNHWC k op inputs weights outputs s = (r, s') \<Longrightarrow> R s s'"
    unfolding runNHWC_def
    by (erule forLoop_rel[where R = R, rotated 3]) (rule refl, erule trans, assumption, erule h)
qed

lemma runNHWC_frame:
  assumes "runNHWC k op inputs weights outputs s = (r, s')" "a \<notin> tileAddrs outputs"
  shows "heap s' a = heap s a"
  using assms(1)
  by (rule runNHWC_rel[where R = "\<lambda>s s'. heap s' a = heap s a", rotated 3])
     (auto dest: invokeKernel_frame[OF _ assms(2)])

lemma runNHWC_shape:
  assumes "runNHWC k op inputs weights outputs s = (r, s')"
  shows "shape (heap s' a) = shape (heap s a)"
  using assms(1)
  by (rule runNHWC_rel[where R = "\<lambda>s s'. shape (heap s' a) = shape (heap s a)", rotated 3])
     (auto dest: invokeKernel_shape)

lemma invokeKernel_appends:
  assumes "invokeKernel k op inputs weights outputs N H W iC wC s = (r, s')"
  shows "\<exists>new. trace s' = trace s @ map KernelInvoked new"
proof (cases r)
  case None
  with assms obtain iv where "trace s' = trace s @ [KernelInvoked iv]"
    by (auto dest: invokeKernel_trace)
  then have "trace s' = trace s @ map KernelInvoked [iv]" by simp
  then show ?thesis by blast
next
  case (Some e)
  with assms have "s' = s" by (auto dest: invokeKernel_fail)
  then show ?thesis by simp
qed

lemma runNHWC_trace:
  assumes "runNHWC k op inputs weights outputs s = (r, s')"
  shows "\<exists>new. trace s' = trace s @ map KernelInvoked new"
  using assms
proof (rule runNHWC_rel[where R = "\<lambda>s s'. \<exists>new. trace s' = trace s @ map KernelInvoked new",
        rotated 3])
  show "\<exists>new. trace s = trace s @ map KernelInvoked new" for s :: "'a state"
    by simp
  show "\<exists>new. trace c = trace a @ map KernelInvoked new"
    if "\<exists>new. trace b = trace a @ map KernelInvoked new"
       "\<exists>new. trace c = trace b @ map KernelInvoked new"
    for a b c :: "'a state"
    using that by (metis append.assoc map_append)
  show "\<exists>new. trace s' = trace s @ map KernelInvoked new"
    if "invokeKernel k op inputs weights outputs N H W iC wC s = (r, s')"
    for N H W iC wC s r s'
    using that by (rule invokeKernel_appends)
qed

lemma runNHWC_error:
  assumes "runNHWC k op inputs weights outputs s = (Some e, s')"
  shows "e \<noteq> AssertionFailure"
proof -
  let ?E = "\<lambda>e. e \<noteq> AssertionFailure"
  have w: "?E e"
    if "forLoop i hi (\<lambda>W. chanLoop k op inputs weights outputs N H W ic wc 0 0) s = (Some e, s')"
    for N H i hi ic wc s e s'
    using that by (rule forLoop_error[where E = ?E, rotated]) (rule chanLoop_error)
  have h: "?E e"
    if "forLoop i hi (\<lambda>H. forLoop j hj
          (\<lambda>W. chanLoop k op inputs weights outputs N H W ic wc 0 0)) s = (Some e, s')"
    for N i hi j hj ic wc s e s'
    using that by (rule forLoop_error[where E = ?E, rotated]) (rule w)
  show ?thesis
    using assms unfolding runNHWC_def
    by (rule forLoop_error[where E = ?E, rotated]) (rule h)
qed




lemma ex22_eval:
  "fst (runNHWC exKernel exOp (mkTiled (1, 1, 1, 2) [0, 1]) (mkTiled (1, 1, 1, 2) [2, 3])
          (mkTiled (1, 1, 1, 1) [4]) exState) = None"
  "map (\<lambda>a. data (heap (snd (runNHWC exKernel exOp (mkTiled (1, 1, 1, 2) [0, 1])
        (mkTiled (1, 1, 1, 2) [2, 3]) (mkTiled (1, 1, 1, 1) [4]) exState)) a)) [0, 1, 2, 3, 4] =
   [0, 0, 0, 0, 2]"
  by (simp_all add: ex_defs forLoop.simps chanLoop.simps Let_def)

subsection \<open>run\<close>

lemma run_asserts:
  assumes "layout (shape (heap s (inputTensor op))) \<noteq> NHWC \<or>
           layout (shape (heap s (kernelsTensor op))) \<noteq> NHWC \<or>
           layout (shape (heap s (outputTensor op))) \<noteq> NHWC"
  shows "run opt k op s = (Some AssertionFailure, s)"
  using assms by (auto simp: run_def Let_def)

lemma halo_eval:
  "layout (shape (heap haloState (inputTensor haloOp))) = NHWC"
  "layout (shape (heap haloState (kernelsTensor haloOp))) = NHWC"
  "layout (shape (heap haloState (outputTensor haloOp))) = NHWC"
  by (simp_all add: haloState_def haloOp_def mkShape_def)

subsection \<open>Tiling and reconstruction\<close>

lemma axisCore_axisSlice:
  "axisCore t h k (axisSlice t h k xs) = take t (drop (k * t) xs)"
proof -
  let ?lo = "if k * t < h then 0 else k * t - h"
  let ?hi = "min (length xs) ((k + 1) * t + h)"
  have m: "?lo + min h (k * t) = k * t" by auto
  have "axisCore t h k (axisSlice t h k xs) =
        take t (drop (min h (k * t)) (take (?hi - ?lo) (drop ?lo xs)))"
    by (simp add: axisCore_def axisSlice_def Let_def)
  also have "\<dots> = take t (take (?hi - ?lo - min h (k * t)) (drop (min h (k * t) + ?lo) xs))"
    by (simp only: drop_take drop_drop)
  also have "\<dots> = take (min t (?hi - k * t)) (drop (k * t) xs)"
  proof -
    have "?hi - ?lo - min h (k * t) = ?hi - k * t" using m by linarith
    moreover have "min h (k * t) + ?lo = k * t" using m by linarith
    ultimately show ?thesis by (simp only: take_take)
  qed
  also have "\<dots> = take t (drop (k * t) xs)"
  proof (cases "t \<le> ?hi - k * t")
    case True
    then show ?thesis by (simp add: min_def)
  next
    case False
    have "?hi = length xs"
    proof (rule ccontr)
      assume "?hi \<noteq> length xs"
      then have "?hi = (k + 1) * t + h" by (simp add: min_def split: if_splits)
      then have "t \<le> ?hi - k * t" by simp
      with False show False by simp
    qed
    then have "length (drop (k * t) xs) \<le> ?hi - k * t" by simp
    then have "take (?hi - k * t) (drop (k * t) xs) = drop (k * t) xs"
      by (rule take_all)
    moreover have "min t (?hi - k * t) = ?hi - k * t" using False by simp
    moreover have "take t (drop (k * t) xs) = drop (k * t) xs"
      using False \<open>length (drop (k * t) xs) \<le> ?hi - k * t\<close> by (intro take_all) linarith
    ultimately show ?thesis by simp
  qed
  finally show ?thesis .
qed

lemma concat_cores: "concat (map (\<lambda>k. take t (drop (k * t) xs)) [0..<g]) = take (g * t) xs"
proof (induction g)
  case 0
  then show ?case by simp
next
  case (Suc g)
  have "take (Suc g * t) xs = take (g * t) xs @ take t (drop (g * t) xs)"
    by (simp add: take_add[symmetric] add.commute)
  with Suc show ?case by simp
qed

lemma axisTiles_covers: "0 < t \<Longrightarrow> n \<le> axisTiles n t * t"
proof -
  assume t: "0 < t"
  have "n + t - 1 < ((n + t - 1) div t) * t + t"
    using t by (metis add.commute dividend_less_times_div mult.commute)
  then show ?thesis unfolding axisTiles_def by linarith
qed

lemma axisTiles_pos: "0 < t \<Longrightarrow> 0 < n \<Longrightarrow> 0 < axisTiles n t"
  unfolding axisTiles_def by (simp add: div_greater_zero_iff)

lemma joinWith_append: "joinWith (@) bs = concat bs"
proof (induction bs)
  case Nil
  then show ?case by simp
next
  case (Cons b bs)
  then show ?case by (cases bs) auto
qed

lemma joinWith_lift:
  "ks \<noteq> [] \<Longrightarrow>
   joinWith (map2 F) (map (\<lambda>k. map (f k) rows) ks) =
   map (\<lambda>r. joinWith F (map (\<lambda>k. f k r) ks)) rows"
proof (induction ks rule: list_nonempty_induct)
  case (single k)
  then show ?case by simp
next
  case (cons k ks)
  obtain k' ks' where ks: "ks = k' # ks'" using cons.hyps by (cases ks) auto
  have "joinWith (map2 F) (map (\<lambda>k. map (f k) rows) (k # ks)) =
        map2 F (map (f k) rows) (joinWith (map2 F) (map (\<lambda>k. map (f k) rows) ks))"
    by (simp add: ks)
  also have "\<dots> = map2 F (map (f k) rows) (map (\<lambda>r. joinWith F (map (\<lambda>k. f k r) ks)) rows)"
    by (simp only: cons.IH)
  also have "\<dots> = map (\<lambda>r. F (f k r) (joinWith F (map (\<lambda>k. f k r) ks))) rows"
    by (rule map2_map_map)
  also have "\<dots> = map (\<lambda>r. joinWith F (map (\<lambda>k. f k r) (k # ks))) rows"
    by (simp add: ks)
  finally show ?case .
qed

lemma axisCore_map: "axisCore t h k (map f xs) = map f (axisCore t h k xs)"
  by (simp add: axisCore_def take_map drop_map)

lemma tileCore_tileData:
  "tileCore t h (a, b, c, d) (tileData t h (a, b, c, d) src) =
   map (map (map (\<lambda>r. take (nth4 t I3) (drop (d * nth4 t I3) r))))
     (map (map (\<lambda>q. take (nth4 t I2) (drop (c * nth4 t I2) q)))
       (map (\<lambda>p. take (nth4 t I1) (drop (b * nth4 t I1) p))
         (take (nth4 t I0) (drop (a * nth4 t I0) src))))"
  by (simp add: tileCore_def tileData_def axisCore_map axisCore_axisSlice comp_def)

lemma concat_block_length:
  "(\<And>i. i < n \<Longrightarrow> length (F i) = m) \<Longrightarrow> length (concat (map F [0..<n])) = n * m"
  by (induction n) simp_all

lemma concat_block_nth:
  "(\<And>i. i < n \<Longrightarrow> length (F i) = m) \<Longrightarrow> i < n \<Longrightarrow> j < m \<Longrightarrow>
   concat (map F [0..<n]) ! (i * m + j) = F i ! j"
proof (induction n)
  case 0
  then show ?case by simp
next
  case (Suc n)
  have len: "length (concat (map F [0..<n])) = n * m"
    using Suc.prems(1) by (intro concat_block_length) simp
  show ?case
  proof (cases "i < n")
    case True
    then have "i * m + j < n * m"
    proof -
      have "i * m + j < i * m + m" using Suc.prems(3) by simp
      also have "\<dots> = Suc i * m" by simp
      also have "\<dots> \<le> n * m" using True by (intro mult_le_mono1) simp
      finally show ?thesis .
    qed
    moreover have "concat (map F [0..<n]) ! (i * m + j) = F i ! j"
      using Suc.IH[OF _ True Suc.prems(3)] Suc.prems(1) by simp
    ultimately show ?thesis by (simp add: nth_append len)
  next
    case False
    with Suc.prems(2) have "i = n" by simp
    then show ?thesis by (simp add: nth_append len)
  qed
qed

lemma gridCoords_length:
  "length (gridCoords (g0, g1, g2, g3)) = g0 * (g1 * (g2 * g3))"
  unfolding gridCoords_def
  by (simp add: concat_block_length)

lemma gridCoords_nth:
  assumes "a < g0" "b < g1" "c < g2" "d < g3"
  shows "gridCoords (g0, g1, g2, g3) ! tileIndex (g0, g1, g2, g3) (a, b, c, d) = (a, b, c, d)"
proof -
  let ?F2 = "\<lambda>a b c. map (\<lambda>d. (a, b, c, d)) [0..<g3]"
  let ?F1 = "\<lambda>a b. concat (map (?F2 a b) [0..<g2])"
  let ?F0 = "\<lambda>a. concat (map (?F1 a) [0..<g1])"
  have l2: "length (?F2 a b c) = g3" for a b c by simp
  have l1: "length (?F1 a b) = g2 * g3" for a b
    by (rule concat_block_length) simp
  have l0: "length (?F0 a) = g1 * (g2 * g3)" for a
    by (rule concat_block_length) (rule l1)
  have i1: "c * g3 + d < g2 * g3"
  proof -
    have "c * g3 + d < Suc c * g3" using assms(4) by simp
    also have "\<dots> \<le> g2 * g3" using assms(3) by (intro mult_le_mono1) simp
    finally show ?thesis .
  qed
  have i0: "b * (g2 * g3) + (c * g3 + d) < g1 * (g2 * g3)"
  proof -
    have "b * (g2 * g3) + (c * g3 + d) < Suc b * (g2 * g3)" using i1 by simp
    also have "\<dots> \<le> g1 * (g2 * g3)" using assms(2) by (intro mult_le_mono1) simp
    finally show ?thesis .
  qed
  have idx: "tileIndex (g0, g1, g2, g3) (a, b, c, d) =
             a * (g1 * (g2 * g3)) + (b * (g2 * g3) + (c * g3 + d))"
    by (simp add: tileIndex_def algebra_simps)
  have "gridCoords (g0, g1, g2, g3) ! tileIndex (g0, g1, g2, g3) (a, b, c, d) =
        concat (map ?F0 [0..<g0]) ! (a * (g1 * (g2 * g3)) + (b * (g2 * g3) + (c * g3 + d)))"
    by (simp add: gridCoords_def idx)
  also have "\<dots> = ?F0 a ! (b * (g2 * g3) + (c * g3 + d))"
    by (rule concat_block_nth[OF l0 assms(1) i0])
  also have "\<dots> = ?F1 a b ! (c * g3 + d)"
    by (rule concat_block_nth[OF l1 assms(2) i1])
  also have "\<dots> = ?F2 a b c ! d"
    by (rule concat_block_nth[OF l2 assms(3) assms(4)])
  also have "\<dots> = (a, b, c, d)" using assms(4) by simp
  finally show ?thesis .
qed

lemma tileIndex_bound:
  assumes "a < g0" "b < g1" "c < g2" "d < g3"
  shows "tileIndex (g0, g1, g2, g3) (a, b, c, d) < g0 * (g1 * (g2 * g3))"
proof -
  have i1: "c * g3 + d < g2 * g3"
  proof -
    have "c * g3 + d < Suc c * g3" using assms(4) by simp
    also have "\<dots> \<le> g2 * g3" using assms(3) by (intro mult_le_mono1) simp
    finally show ?thesis .
  qed
  have i0: "b * (g2 * g3) + (c * g3 + d) < g1 * (g2 * g3)"
  proof -
    have "b * (g2 * g3) + (c * g3 + d) < Suc b * (g2 * g3)" using i1 by simp
    also have "\<dots> \<le> g1 * (g2 * g3)" using assms(2) by (intro mult_le_mono1) simp
    finally show ?thesis .
  qed
  have "a * (g1 * (g2 * g3)) + (b * (g2 * g3) + (c * g3 + d)) < Suc a * (g1 * (g2 * g3))"
    using i0 by simp
  also have "\<dots> \<le> g0 * (g1 * (g2 * g3))" using assms(1) by (intro mult_le_mono1) simp
  finally show ?thesis by (simp add: tileIndex_def algebra_simps)
qed

lemma join_axis3:
  assumes "0 < g"
  shows "joinWith (map2 (map2 (map2 (@))))
           (map (\<lambda>d. map (map (map (\<lambda>r. take t (drop (d * t) r)))) X) [0..<g]) =
         map (map (map (take (g * t)))) X"
proof -
  have ne: "[0..<g] \<noteq> []" using assms by simp
  show ?thesis
    by (simp add: joinWith_lift[OF ne] joinWith_append concat_cores)
qed

lemma join_axis2:
  assumes "0 < g"
  shows "joinWith (map2 (map2 (@)))
           (map (\<lambda>c. map (map (\<lambda>q. take t (drop (c * t) q))) X) [0..<g]) =
         map (map (take (g * t))) X"
proof -
  have ne: "[0..<g] \<noteq> []" using assms by simp
  show ?thesis
    by (simp add: joinWith_lift[OF ne] joinWith_append concat_cores)
qed

lemma join_axis1:
  assumes "0 < g"
  shows "joinWith (map2 (@))
           (map (\<lambda>b. map (\<lambda>p. take t (drop (b * t) p)) X) [0..<g]) =
         map (take (g * t)) X"
proof -
  have ne: "[0..<g] \<noteq> []" using assms by simp
  show ?thesis
    by (simp add: joinWith_lift[OF ne] joinWith_append concat_cores)
qed

lemma trim_source:
  assumes "conforms src"
    and "nat (shapeAt (shape src) I0) \<le> G0" and "nat (shapeAt (shape src) I1) \<le> G1"
    and "nat (shapeAt (shape src) I2) \<le> G2" and "nat (shapeAt (shape src) I3) \<le> G3"
  shows "take G0 (data src) = data src"
    and "map (take G1) (data src) = data src"
    and "map (map (take G2)) (data src) = data src"
    and "map (map (map (take G3))) (data src) = data src"
proof -
  show "take G0 (data src) = data src"
  proof (intro take_all)
    have "int (length (data src)) = shapeAt (shape src) I0"
      using assms(1) by (simp add: conforms_def)
    then show "length (data src) \<le> G0" using assms(2) by linarith
  qed
  show "map (take G1) (data src) = data src"
  proof (intro map_idI take_all)
    fix p assume "p \<in> set (data src)"
    then have "int (length p) = shapeAt (shape src) I1"
      using assms(1) by (simp add: conforms_def)
    then show "length p \<le> G1" using assms(3) by linarith
  qed
  show "map (map (take G2)) (data src) = data src"
  proof (intro map_idI take_all)
    fix p q assume "p \<in> set (data src)" "q \<in> set p"
    then have "int (length q) = shapeAt (shape src) I2"
      using assms(1) by (simp add: conforms_def)
    then show "length q \<le> G2" using assms(4) by linarith
  qed
  show "map (map (map (take G3))) (data src) = data src"
  proof (intro map_idI take_all)
    fix p q r assume "p \<in> set (data src)" "q \<in> set p" "r \<in> set q"
    then have "int (length r) = shapeAt (shape src) I3"
      using assms(1) by (simp add: conforms_def)
    then show "length r \<le> G3" using assms(5) by linarith
  qed
qed

lemma reconstruct_generate:
  assumes wf: "conforms src"
    and tpos: "0 < shapeAt tileShape I0" "0 < shapeAt tileShape I1"
              "0 < shapeAt tileShape I2" "0 < shapeAt tileShape I3"
  shows "reconstruct (generateTiledTensor src tileShape halos) = data src"
proof -
  define n0 n1 n2 n3 where n: "n0 = nat (shapeAt (shape src) I0)" "n1 = nat (shapeAt (shape src) I1)"
    "n2 = nat (shapeAt (shape src) I2)" "n3 = nat (shapeAt (shape src) I3)"
  define t0 t1 t2 t3 where t: "t0 = nat (shapeAt tileShape I0)" "t1 = nat (shapeAt tileShape I1)"
    "t2 = nat (shapeAt tileShape I2)" "t3 = nat (shapeAt tileShape I3)"
  define h where "h = (haloAt halos 0, haloAt halos 1, haloAt halos 2, haloAt halos 3)"
  define g0 g1 g2 g3 where g: "g0 = axisTiles n0 t0" "g1 = axisTiles n1 t1"
    "g2 = axisTiles n2 t2" "g3 = axisTiles n3 t3"
  define td where "td = generateTiledTensor src tileShape halos"
  let ?src = "data src"
  have tp: "0 < t0" "0 < t1" "0 < t2" "0 < t3" using tpos by (simp_all add: t)
  have np: "0 < n0" "0 < n1" "0 < n2" "0 < n3" using wf by (simp_all add: n conforms_def)
  have gp: "0 < g0" "0 < g1" "0 < g2" "0 < g3"
    using tp np by (simp_all add: g axisTiles_pos)
  have cov: "n0 \<le> g0 * t0" "n1 \<le> g1 * t1" "n2 \<le> g2 * t2" "n3 \<le> g3 * t3"
    using tp by (simp_all add: g axisTiles_covers)
  note trim = trim_source[OF wf cov[unfolded n]]
  have grid: "tdGrid td = (g0, g1, g2, g3)" and ext: "tdTileExtent td = (t0, t1, t2, t3)"
    and halo: "tdHalo td = h"
    and tiles: "tdTiles td = map (\<lambda>k. \<lparr> shape = tileShapeAt (shape src) (t0, t1, t2, t3) h k,
                                 data = tileData (t0, t1, t2, t3) h k ?src \<rparr>)
                               (gridCoords (g0, g1, g2, g3))"
    by (simp_all add: td_def generateTiledTensor_def Let_def natDims_def n t g h_def)
  let ?c0 = "\<lambda>a (x :: 'a data4). take t0 (drop (a * t0) x)"
  let ?c1 = "\<lambda>b (p :: 'a list list list). take t1 (drop (b * t1) p)"
  let ?c2 = "\<lambda>c (q :: 'a list list). take t2 (drop (c * t2) q)"
  let ?c3 = "\<lambda>d (r :: 'a list). take t3 (drop (d * t3) r)"
  have lookup: "tileCore (tdTileExtent td) (tdHalo td) (a, b, c, d)
                  (data (tdTiles td ! tileIndex (g0, g1, g2, g3) (a, b, c, d))) =
                map (map (map (?c3 d))) (map (map (?c2 c)) (map (?c1 b) (?c0 a ?src)))"
    if "a < g0" "b < g1" "c < g2" "d < g3" for a b c d
  proof -
    have "tileIndex (g0, g1, g2, g3) (a, b, c, d) < length (gridCoords (g0, g1, g2, g3))"
      using tileIndex_bound[OF that] by (simp add: gridCoords_length)
    then have "data (tdTiles td ! tileIndex (g0, g1, g2, g3) (a, b, c, d)) =
               tileData (t0, t1, t2, t3) h (a, b, c, d) ?src"
      by (simp add: tiles grid gridCoords_nth[OF that])
    then show ?thesis
      by (simp add: ext halo tileCore_tileData)
  qed
  have ax3: "joinWith (map2 (map2 (map2 (@)))) (map (\<lambda>d.
               tileCore (tdTileExtent td) (tdHalo td) (a, b, c, d)
                 (data (tdTiles td ! tileIndex (g0, g1, g2, g3) (a, b, c, d)))) [0..<g3]) =
             map (map (?c2 c)) (map (?c1 b) (?c0 a ?src))"
    if "a < g0" "b < g1" "c < g2" for a b c
  proof -
    have "map (\<lambda>d. tileCore (tdTileExtent td) (tdHalo td) (a, b, c, d)
                 (data (tdTiles td ! tileIndex (g0, g1, g2, g3) (a, b, c, d)))) [0..<g3] =
          map (\<lambda>d. map (map (map (?c3 d))) (map (map (?c2 c)) (map (?c1 b) (?c0 a ?src))))
            [0..<g3]"
      using that by (intro map_cong refl lookup) simp_all
    then have "joinWith (map2 (map2 (map2 (@)))) (map (\<lambda>d.
               tileCore (tdTileExtent td) (tdHalo td) (a, b, c, d)
                 (data (tdTiles td ! tileIndex (g0, g1, g2, g3) (a, b, c, d)))) [0..<g3]) =
          map (map (map (take (g3 * t3)))) (map (map (?c2 c)) (map (?c1 b) (?c0 a ?src)))"
      by (simp only: join_axis3[OF gp(4)])
    also have "\<dots> = map (map (?c2 c)) (map (?c1 b)
                        (?c0 a (map (map (map (take (g3 * t3)))) ?src)))"
      by (simp add: take_map drop_map)
    finally show ?thesis by (simp only: trim(4))
  qed
  have ax2: "joinWith (map2 (map2 (@))) (map (\<lambda>c.
               joinWith (map2 (map2 (map2 (@)))) (map (\<lambda>d.
                 tileCore (tdTileExtent td) (tdHalo td) (a, b, c, d)
                   (data (tdTiles td ! tileIndex (g0, g1, g2, g3) (a, b, c, d)))) [0..<g3]))
               [0..<g2]) =
             map (?c1 b) (?c0 a ?src)"
    if "a < g0" "b < g1" for a b
  proof -
    have "map (\<lambda>c. joinWith (map2 (map2 (map2 (@)))) (map (\<lambda>d.
                 tileCore (tdTileExtent td) (tdHalo td) (a, b, c, d)
                   (data (tdTiles td ! tileIndex (g0, g1, g2, g3) (a, b, c, d)))) [0..<g3]))
               [0..<g2] =
          map (\<lambda>c. map (map (?c2 c)) (map (?c1 b) (?c0 a ?src))) [0..<g2]"
      using that by (intro map_cong refl ax3) simp_all
    then have "joinWith (map2 (map2 (@))) (map (\<lambda>c.
               joinWith (map2 (map2 (map2 (@)))) (map (\<lambda>d.
                 tileCore (tdTileExtent td) (tdHalo td) (a, b, c, d)
                   (data (tdTiles td ! tileIndex (g0, g1, g2, g3) (a, b, c, d)))) [0..<g3]))
               [0..<g2]) =
          map (map (take (g2 * t2))) (map (?c1 b) (?c0 a ?src))"
      by (simp only: join_axis2[OF gp(3)])
    also have "\<dots> = map (?c1 b) (?c0 a (map (map (take (g2 * t2))) ?src))"
      by (simp add: take_map drop_map)
    finally show ?thesis by (simp only: trim(3))
  qed
  have ax1: "joinWith (map2 (@)) (map (\<lambda>b.
               joinWith (map2 (map2 (@))) (map (\<lambda>c.
                 joinWith (map2 (map2 (map2 (@)))) (map (\<lambda>d.
                   tileCore (tdTileExtent td) (tdHalo td) (a, b, c, d)
                     (data (tdTiles td ! tileIndex (g0, g1, g2, g3) (a, b, c, d)))) [0..<g3]))
                 [0..<g2]))
               [0..<g1]) =
             ?c0 a ?src"
    if "a < g0" for a
  proof -
    have "map (\<lambda>b. joinWith (map2 (map2 (@))) (map (\<lambda>c.
                 joinWith (map2 (map2 (map2 (@)))) (map (\<lambda>d.
                   tileCore (tdTileExtent td) (tdHalo td) (a, b, c, d)
                     (data (tdTiles td ! tileIndex (g0, g1, g2, g3) (a, b, c, d)))) [0..<g3]))
                 [0..<g2]))
               [0..<g1] =
          map (\<lambda>b. map (?c1 b) (?c0 a ?src)) [0..<g1]"
      using that by (intro map_cong refl ax2) simp_all
    then have "joinWith (map2 (@)) (map (\<lambda>b.
               joinWith (map2 (map2 (@))) (map (\<lambda>c.
                 joinWith (map2 (map2 (map2 (@)))) (map (\<lambda>d.
                   tileCore (tdTileExtent td) (tdHalo td) (a, b, c, d)
                     (data (tdTiles td ! tileIndex (g0, g1, g2, g3) (a, b, c, d)))) [0..<g3]))
                 [0..<g2]))
               [0..<g1]) =
          map (take (g1 * t1)) (?c0 a ?src)"
      by (simp only: join_axis1[OF gp(2)])
    also have "\<dots> = ?c0 a (map (take (g1 * t1)) ?src)"
      by (simp add: take_map drop_map)
    finally show ?thesis by (simp only: trim(2))
  qed
  have "map (\<lambda>a. joinWith (map2 (@)) (map (\<lambda>b.
               joinWith (map2 (map2 (@))) (map (\<lambda>c.
                 joinWith (map2 (map2 (map2 (@)))) (map (\<lambda>d.
                   tileCore (tdTileExtent td) (tdHalo td) (a, b, c, d)
                     (data (tdTiles td ! tileIndex (g0, g1, g2, g3) (a, b, c, d)))) [0..<g3]))
                 [0..<g2]))
               [0..<g1])) [0..<g0] =
        map (\<lambda>a. ?c0 a ?src) [0..<g0]"
    by (intro map_cong refl ax1) simp
  then have "concat (map (\<lambda>a. joinWith (map2 (@)) (map (\<lambda>b.
               joinWith (map2 (map2 (@))) (map (\<lambda>c.
                 joinWith (map2 (map2 (map2 (@)))) (map (\<lambda>d.
                   tileCore (tdTileExtent td) (tdHalo td) (a, b, c, d)
                     (data (tdTiles td ! tileIndex (g0, g1, g2, g3) (a, b, c, d)))) [0..<g3]))
                 [0..<g2]))
               [0..<g1])) [0..<g0]) =
        concat (map (\<lambda>a. ?c0 a ?src) [0..<g0])"
    by (rule arg_cong)
  moreover have "reconstruct td = concat (map (\<lambda>a. joinWith (map2 (@)) (map (\<lambda>b.
               joinWith (map2 (map2 (@))) (map (\<lambda>c.
                 joinWith (map2 (map2 (map2 (@)))) (map (\<lambda>d.
                   tileCore (tdTileExtent td) (tdHalo td) (a, b, c, d)
                     (data (tdTiles td ! tileIndex (g0, g1, g2, g3) (a, b, c, d)))) [0..<g3]))
                 [0..<g2]))
               [0..<g1])) [0..<g0])"
    by (simp only: reconstruct_def grid nth4.simps)
  ultimately have "reconstruct td = concat (map (\<lambda>a. ?c0 a ?src) [0..<g0])"
    by (simp only:)
  also have "\<dots> = take (g0 * t0) ?src" by (rule concat_cores)
  also have "\<dots> = ?src" by (rule trim(1))
  finally show ?thesis by (simp add: td_def)
qed

lemma length_axisSlice: "length (axisSlice t h k xs) = axisExtent (length xs) t h k"
  by (auto simp: axisSlice_def axisExtent_def Let_def min_def)

lemma axisExtent_pos:
  assumes "0 < t" "k < axisTiles n t"
  shows "0 < axisExtent n t h k"
proof -
  have "k * t < n"
  proof (rule ccontr)
    assume "\<not> k * t < n"
    then have "n \<le> k * t" by simp
    then have "n + t - 1 < Suc k * t" using assms(1) by simp
    then have "(n + t - 1) div t < Suc k"
      using assms(1) by (simp add: less_mult_imp_div_less)
    with assms(2) show False by (simp add: axisTiles_def)
  qed
  then show ?thesis using assms(1) by (auto simp: axisExtent_def min_def)
qed

lemma tile_conforms:
  assumes wf: "conforms src"
    and tpos: "0 < nth4 t I0" "0 < nth4 t I1" "0 < nth4 t I2" "0 < nth4 t I3"
    and k: "nth4 k I0 < axisTiles (nth4 (natDims (shape src)) I0) (nth4 t I0)"
           "nth4 k I1 < axisTiles (nth4 (natDims (shape src)) I1) (nth4 t I1)"
           "nth4 k I2 < axisTiles (nth4 (natDims (shape src)) I2) (nth4 t I2)"
           "nth4 k I3 < axisTiles (nth4 (natDims (shape src)) I3) (nth4 t I3)"
  shows "conforms \<lparr> shape = tileShapeAt (shape src) t h k, data = tileData t h k (data src) \<rparr>"
proof -
  have len: "length (data src) = nth4 (natDims (shape src)) I0"
    "\<And>p. p \<in> set (data src) \<Longrightarrow> length p = nth4 (natDims (shape src)) I1"
    "\<And>p q. p \<in> set (data src) \<Longrightarrow> q \<in> set p \<Longrightarrow> length q = nth4 (natDims (shape src)) I2"
    "\<And>p q r. p \<in> set (data src) \<Longrightarrow> q \<in> set p \<Longrightarrow> r \<in> set q \<Longrightarrow>
        length r = nth4 (natDims (shape src)) I3"
  proof -
    have c: "int (length (data src)) = shapeAt (shape src) I0"
      "\<forall>p\<in>set (data src). int (length p) = shapeAt (shape src) I1 \<and>
        (\<forall>q\<in>set p. int (length q) = shapeAt (shape src) I2 \<and>
           (\<forall>r\<in>set q. int (length r) = shapeAt (shape src) I3))"
      using wf by (simp_all add: conforms_def)
    show "length (data src) = nth4 (natDims (shape src)) I0"
      using c(1) by (simp add: natDims_def)
    show "length p = nth4 (natDims (shape src)) I1" if "p \<in> set (data src)" for p
      using c(2) that by (simp add: natDims_def) (metis nat_int)
    show "length q = nth4 (natDims (shape src)) I2" if "p \<in> set (data src)" "q \<in> set p" for p q
      using c(2) that by (simp add: natDims_def) (metis nat_int)
    show "length r = nth4 (natDims (shape src)) I3"
      if "p \<in> set (data src)" "q \<in> set p" "r \<in> set q" for p q r
      using c(2) that by (simp add: natDims_def) (metis nat_int)
  qed
  have sub: "set (axisSlice a b c xs) \<subseteq> set xs" for a b c and xs :: "'b list"
    by (auto simp: axisSlice_def Let_def dest: in_set_takeD in_set_dropD)
  show ?thesis
    unfolding conforms_def
    using axisExtent_pos[OF tpos(1) k(1), of "nth4 h I0"] axisExtent_pos[OF tpos(2) k(2), of "nth4 h I1"]
      axisExtent_pos[OF tpos(3) k(3), of "nth4 h I2"] axisExtent_pos[OF tpos(4) k(4), of "nth4 h I3"]
    by (auto simp: tileShapeAt_def tileData_def shapeAt_def length_axisSlice len
          dest!: subsetD[OF sub])
qed

lemma gridCoords_set:
  "k \<in> set (gridCoords g) \<Longrightarrow>
   nth4 k I0 < nth4 g I0 \<and> nth4 k I1 < nth4 g I1 \<and> nth4 k I2 < nth4 g I2 \<and> nth4 k I3 < nth4 g I3"
  by (auto simp: gridCoords_def)

lemma exSource_tiles:
  "map data (tdTiles (generateTiledTensor exSource (mkShape (1, 1, 2, 2)) [0, 1, 1, 0])) =
     [[[[[1, 2], [3, 4], [5, 6]]]],
      [[[[3, 4], [5, 6], [7, 8], [9, 10]]]],
      [[[[7, 8], [9, 10]]]]]"
  "map (\<lambda>T. dims (shape T)) (tdTiles (generateTiledTensor exSource (mkShape (1, 1, 2, 2)) [0, 1, 1, 0])) =
     [(1, 1, 3, 2), (1, 1, 4, 2), (1, 1, 2, 2)]"
  "tdGrid (generateTiledTensor exSource (mkShape (1, 1, 2, 2)) [0, 1, 1, 0]) = (1, 1, 3, 1)"
  by code_simp+

section \<open>The claims\<close>

text \<open>
  C1. The claim does not hold of \<^verbatim>\<open>runNHWC\<close>: the last argument of the kernel call is
  \<^verbatim>\<open>iC == wC\<close> (line 60), and each reconciliation loop starts at cursors (0, 0). Run with
  a kernel that appends the flag it receives to the output buffer, on two input channel
  tiles, two filter tiles of two weight channel tiles each, and two output tiles (matched
  counts): the two calls on an output tile receive true and true, where the first has to
  receive false and the second true. With one input channel tile and four weight channel
  tiles the four calls on the output tile receive true, false, false, false: the first
  call on an output tile never receives false, and what the later calls receive differs
  between the two branches of the loop.
\<close>

theorem flags_received_by_kernel:
  "fst (runNHWC flagLog exOp (mkTiled (1, 1, 1, 2) [0, 1]) (mkTiled (2, 1, 1, 2) [2, 3, 4, 5])
          (mkTiled (1, 1, 1, 2) [6, 7]) logState) = None \<and>
   data (heap (snd (runNHWC flagLog exOp (mkTiled (1, 1, 1, 2) [0, 1])
          (mkTiled (2, 1, 1, 2) [2, 3, 4, 5]) (mkTiled (1, 1, 1, 2) [6, 7]) logState)) 6) =
     [True, True] \<and>
   data (heap (snd (runNHWC flagLog exOp (mkTiled (1, 1, 1, 2) [0, 1])
          (mkTiled (2, 1, 1, 2) [2, 3, 4, 5]) (mkTiled (1, 1, 1, 2) [6, 7]) logState)) 7) =
     [True, True] \<and>
   fst (runNHWC flagLog exOp (mkTiled (1, 1, 1, 1) [0]) (mkTiled (1, 1, 1, 4) [1, 2, 3, 4])
          (mkTiled (1, 1, 1, 1) [5]) logState) = None \<and>
   data (heap (snd (runNHWC flagLog exOp (mkTiled (1, 1, 1, 1) [0])
          (mkTiled (1, 1, 1, 4) [1, 2, 3, 4]) (mkTiled (1, 1, 1, 1) [5]) logState)) 5) =
     [True, False, False, False]"
  by (simp add: ex_defs flagLog_def logState_def forLoop.simps chanLoop.simps Let_def)





text \<open>
  C4. When the three layout assertions hold, \<^verbatim>\<open>run\<close> calls \<^verbatim>\<open>generateTiledTensor\<close> three
  times: for the input tensor with halos 0, \<^verbatim>\<open>weightRows / 2\<close>, \<^verbatim>\<open>weightCols / 2\<close>, 0
  (nothing on the batch and channel axes), then for the weights with halos 0, 0, 0, 0,
  then for the output with halos 0, 0, 0, 0, each call on the store the previous one left.
  The three tiled tensors these calls return, and the store the last one leaves, are what
  \<^verbatim>\<open>runNHWC\<close> is run on. The calls are recorded in this order after
  \<^verbatim>\<open>computeBasicTileShapes\<close>, and everything recorded after them is a kernel invocation.
\<close>

theorem halos_passed_to_generateTiledTensor:
  assumes "layout (shape (heap s (inputTensor op))) = NHWC"
    and "layout (shape (heap s (kernelsTensor op))) = NHWC"
    and "layout (shape (heap s (outputTensor op))) = NHWC"
  shows "\<exists>ti h2 tw h3 to h4 new.
      optGenerateTiledTensor opt (inputTensor op)
        (inputsTile (optComputeBasicTileShapes opt kNumPEs kNumMaccsPerPE op (heap s)))
        [0, weightRows op sdiv 2, weightCols op sdiv 2, 0] (heap s) = (ti, h2) \<and>
      optGenerateTiledTensor opt (kernelsTensor op)
        (weightsTile (optComputeBasicTileShapes opt kNumPEs kNumMaccsPerPE op (heap s)))
        [0, 0, 0, 0] h2 = (tw, h3) \<and>
      optGenerateTiledTensor opt (outputTensor op)
        (outputsTile (optComputeBasicTileShapes opt kNumPEs kNumMaccsPerPE op (heap s)))
        [0, 0, 0, 0] h3 = (to, h4) \<and>
      run opt k op s = runNHWC k op ti tw to
        \<lparr> heap = h4, trace = trace s @
          [ComputeBasicTileShapes,
           GenerateTiledTensor (inputTensor op)
             (inputsTile (optComputeBasicTileShapes opt kNumPEs kNumMaccsPerPE op (heap s)))
             [0, weightRows op sdiv 2, weightCols op sdiv 2, 0],
           GenerateTiledTensor (kernelsTensor op)
             (weightsTile (optComputeBasicTileShapes opt kNumPEs kNumMaccsPerPE op (heap s)))
             [0, 0, 0, 0],
           GenerateTiledTensor (outputTensor op)
             (outputsTile (optComputeBasicTileShapes opt kNumPEs kNumMaccsPerPE op (heap s)))
             [0, 0, 0, 0]] \<rparr> \<and>
      trace (snd (run opt k op s)) = trace s @
        [ComputeBasicTileShapes,
         GenerateTiledTensor (inputTensor op)
           (inputsTile (optComputeBasicTileShapes opt kNumPEs kNumMaccsPerPE op (heap s)))
           [0, weightRows op sdiv 2, weightCols op sdiv 2, 0],
         GenerateTiledTensor (kernelsTensor op)
           (weightsTile (optComputeBasicTileShapes opt kNumPEs kNumMaccsPerPE op (heap s)))
           [0, 0, 0, 0],
         GenerateTiledTensor (outputTensor op)
           (outputsTile (optComputeBasicTileShapes opt kNumPEs kNumMaccsPerPE op (heap s)))
           [0, 0, 0, 0]] @ map KernelInvoked new"
proof -
  let ?cfg = "optComputeBasicTileShapes opt kNumPEs kNumMaccsPerPE op (heap s)"
  let ?pre = "[ComputeBasicTileShapes,
           GenerateTiledTensor (inputTensor op) (inputsTile ?cfg)
             [0, weightRows op sdiv 2, weightCols op sdiv 2, 0],
           GenerateTiledTensor (kernelsTensor op) (weightsTile ?cfg) [0, 0, 0, 0],
           GenerateTiledTensor (outputTensor op) (outputsTile ?cfg) [0, 0, 0, 0]]"
  obtain ti h2 where g1: "optGenerateTiledTensor opt (inputTensor op) (inputsTile ?cfg)
        [0, weightRows op sdiv 2, weightCols op sdiv 2, 0] (heap s) = (ti, h2)"
    by (cases "optGenerateTiledTensor opt (inputTensor op) (inputsTile ?cfg)
        [0, weightRows op sdiv 2, weightCols op sdiv 2, 0] (heap s)")
  obtain tw h3 where g2: "optGenerateTiledTensor opt (kernelsTensor op) (weightsTile ?cfg)
        [0, 0, 0, 0] h2 = (tw, h3)"
    by (cases "optGenerateTiledTensor opt (kernelsTensor op) (weightsTile ?cfg) [0, 0, 0, 0] h2")
  obtain to h4 where g3: "optGenerateTiledTensor opt (outputTensor op) (outputsTile ?cfg)
        [0, 0, 0, 0] h3 = (to, h4)"
    by (cases "optGenerateTiledTensor opt (outputTensor op) (outputsTile ?cfg) [0, 0, 0, 0] h3")
  have run: "run opt k op s = runNHWC k op ti tw to \<lparr> heap = h4, trace = trace s @ ?pre \<rparr>"
    using assms g1 g2 g3 by (cases s) (simp add: run_def Let_def)
  obtain r s' where rs: "runNHWC k op ti tw to \<lparr> heap = h4, trace = trace s @ ?pre \<rparr> = (r, s')"
    by (cases "runNHWC k op ti tw to \<lparr> heap = h4, trace = trace s @ ?pre \<rparr>")
  from runNHWC_trace[OF rs] obtain new where
    "trace s' = trace \<lparr> heap = h4, trace = trace s @ ?pre \<rparr> @ map KernelInvoked new"
    by blast
  then have tr: "trace (snd (run opt k op s)) = trace s @ ?pre @ map KernelInvoked new"
    using run rs by simp
  show ?thesis
    by (rule exI[of _ ti], rule exI[of _ h2], rule exI[of _ tw], rule exI[of _ h3],
        rule exI[of _ to], rule exI[of _ h4], rule exI[of _ new], intro conjI)
       (rule g1, rule g2, rule g3, rule run, rule tr)
qed

theorem halos_passed_to_generateTiledTensor_witness:
  "layout (shape (heap haloState (inputTensor haloOp))) = NHWC \<and>
   layout (shape (heap haloState (kernelsTensor haloOp))) = NHWC \<and>
   layout (shape (heap haloState (outputTensor haloOp))) = NHWC \<and>
   fst (run haloLogOptimizer keepKernel haloOp haloState) = None \<and>
   data (heap (snd (run haloLogOptimizer keepKernel haloOp haloState)) 100) = [0, 2, 1, 0] \<and>
   data (heap (snd (run haloLogOptimizer keepKernel haloOp haloState)) 101) = [0, 0, 0, 0] \<and>
   data (heap (snd (run haloLogOptimizer keepKernel haloOp haloState)) 102) = [0, 0, 0, 0] \<and>
   (\<exists>new. trace (snd (run haloLogOptimizer keepKernel haloOp haloState)) =
      [ComputeBasicTileShapes,
       GenerateTiledTensor 100 (mkShape (1, 8, 8, 4)) [0, 2, 1, 0],
       GenerateTiledTensor 101 (mkShape (8, 5, 3, 4)) [0, 0, 0, 0],
       GenerateTiledTensor 102 (mkShape (1, 8, 8, 8)) [0, 0, 0, 0]] @ map KernelInvoked new)"
proof -
  let ?run = "run haloLogOptimizer keepKernel haloOp haloState"
  let ?one = "\<lambda>t. \<lparr> gridShape = mkShape (1, 1, 1, 1), slots = [Some t] \<rparr>"
  from halos_passed_to_generateTiledTensor[OF halo_eval, of haloLogOptimizer keepKernel]
  obtain ti h2 tw h3 to h4 new where
    g1: "optGenerateTiledTensor haloLogOptimizer (inputTensor haloOp)
        (inputsTile (optComputeBasicTileShapes haloLogOptimizer kNumPEs kNumMaccsPerPE haloOp
           (heap haloState)))
        [0, weightRows haloOp sdiv 2, weightCols haloOp sdiv 2, 0] (heap haloState) = (ti, h2)"
    and g2: "optGenerateTiledTensor haloLogOptimizer (kernelsTensor haloOp)
        (weightsTile (optComputeBasicTileShapes haloLogOptimizer kNumPEs kNumMaccsPerPE haloOp
           (heap haloState)))
        [0, 0, 0, 0] h2 = (tw, h3)"
    and g3: "optGenerateTiledTensor haloLogOptimizer (outputTensor haloOp)
        (outputsTile (optComputeBasicTileShapes haloLogOptimizer kNumPEs kNumMaccsPerPE haloOp
           (heap haloState)))
        [0, 0, 0, 0] h3 = (to, h4)"
    and run: "?run = runNHWC keepKernel haloOp ti tw to
        \<lparr> heap = h4, trace = trace haloState @
          [ComputeBasicTileShapes,
           GenerateTiledTensor (inputTensor haloOp)
             (inputsTile (optComputeBasicTileShapes haloLogOptimizer kNumPEs kNumMaccsPerPE
                haloOp (heap haloState)))
             [0, weightRows haloOp sdiv 2, weightCols haloOp sdiv 2, 0],
           GenerateTiledTensor (kernelsTensor haloOp)
             (weightsTile (optComputeBasicTileShapes haloLogOptimizer kNumPEs kNumMaccsPerPE
                haloOp (heap haloState)))
             [0, 0, 0, 0],
           GenerateTiledTensor (outputTensor haloOp)
             (outputsTile (optComputeBasicTileShapes haloLogOptimizer kNumPEs kNumMaccsPerPE
                haloOp (heap haloState)))
             [0, 0, 0, 0]] \<rparr>"
    and tr: "trace (snd ?run) = trace haloState @
        [ComputeBasicTileShapes,
         GenerateTiledTensor (inputTensor haloOp)
           (inputsTile (optComputeBasicTileShapes haloLogOptimizer kNumPEs kNumMaccsPerPE
              haloOp (heap haloState)))
           [0, weightRows haloOp sdiv 2, weightCols haloOp sdiv 2, 0],
         GenerateTiledTensor (kernelsTensor haloOp)
           (weightsTile (optComputeBasicTileShapes haloLogOptimizer kNumPEs kNumMaccsPerPE
              haloOp (heap haloState)))
           [0, 0, 0, 0],
         GenerateTiledTensor (outputTensor haloOp)
           (outputsTile (optComputeBasicTileShapes haloLogOptimizer kNumPEs kNumMaccsPerPE
              haloOp (heap haloState)))
           [0, 0, 0, 0]] @ map KernelInvoked new"
    by - (elim exE conjE, rule that, assumption+)
  from g1 have t1: "ti = ?one 100" "h2 = (heap haloState)(100 := (heap haloState 100)\<lparr> data := [0, 2, 1, 0] \<rparr>)"
    by (auto simp: haloLogOptimizer_def haloOp_def signed_divide_int_def)
  from g2 have t2: "tw = ?one 101" "h3 = h2(101 := (h2 101)\<lparr> data := [0, 0, 0, 0] \<rparr>)"
    by (auto simp: haloLogOptimizer_def haloOp_def)
  from g3 have t3: "to = ?one 102" "h4 = h3(102 := (h3 102)\<lparr> data := [0, 0, 0, 0] \<rparr>)"
    by (auto simp: haloLogOptimizer_def haloOp_def)
  have r: "fst ?run = None"
    and d0: "data (heap (snd ?run) 100) = [0, 2, 1, 0]"
    and d1: "data (heap (snd ?run) 101) = [0, 0, 0, 0]"
    and d2: "data (heap (snd ?run) 102) = [0, 0, 0, 0]"
    unfolding run t1 t2 t3
    by (simp_all add: haloState_def haloOp_def keepKernel_def mkShape_def runNHWC_def
          invokeKernel_def startIndex_def tileAt_def shapeAt_def getPadding_def dims4_def
          forLoop.simps chanLoop.simps Let_def)
  from tr have "trace (snd ?run) =
      [ComputeBasicTileShapes,
       GenerateTiledTensor 100 (mkShape (1, 8, 8, 4)) [0, 2, 1, 0],
       GenerateTiledTensor 101 (mkShape (8, 5, 3, 4)) [0, 0, 0, 0],
       GenerateTiledTensor 102 (mkShape (1, 8, 8, 8)) [0, 0, 0, 0]] @ map KernelInvoked new"
    by (simp add: haloLogOptimizer_def haloState_def haloOp_def signed_divide_int_def)
  then have t: "\<exists>new. trace (snd ?run) =
      [ComputeBasicTileShapes,
       GenerateTiledTensor 100 (mkShape (1, 8, 8, 4)) [0, 2, 1, 0],
       GenerateTiledTensor 101 (mkShape (8, 5, 3, 4)) [0, 0, 0, 0],
       GenerateTiledTensor 102 (mkShape (1, 8, 8, 8)) [0, 0, 0, 0]] @ map KernelInvoked new"
    by (rule exI)
  from halo_eval r d0 d1 d2 t show ?thesis by simp
qed

text \<open>
  C6. If the layout of the input, of the weights or of the output tensor is not the NHWC
  layout that \<^verbatim>\<open>getInputDataLayouts\<close> and \<^verbatim>\<open>getOutputDataLayouts\<close> declare, \<^verbatim>\<open>run\<close> ends with
  an assertion failure and leaves the state as it was: nothing has been called, and
  nothing is done afterwards. Conversely, whenever \<^verbatim>\<open>computeBasicTileShapes\<close> or
  \<^verbatim>\<open>generateTiledTensor\<close> has been called by \<^verbatim>\<open>run\<close>, all three layouts are NHWC.
\<close>

theorem layouts_asserted_before_tiling:
  "(layout (shape (heap s (inputTensor op))) \<notin> getInputDataLayouts \<or>
    layout (shape (heap s (kernelsTensor op))) \<notin> getInputDataLayouts \<or>
    layout (shape (heap s (outputTensor op))) \<notin> getOutputDataLayouts \<longrightarrow>
      run opt k op s = (Some AssertionFailure, s)) \<and>
   (ComputeBasicTileShapes \<in> set (drop (length (trace s)) (trace (snd (run opt k op s)))) \<or>
    (\<exists>t sh hs. GenerateTiledTensor t sh hs \<in>
       set (drop (length (trace s)) (trace (snd (run opt k op s))))) \<longrightarrow>
      layout (shape (heap s (inputTensor op))) = NHWC \<and>
      layout (shape (heap s (kernelsTensor op))) = NHWC \<and>
      layout (shape (heap s (outputTensor op))) = NHWC)"
proof -
  have a: "run opt k op s = (Some AssertionFailure, s)"
    if "layout (shape (heap s (inputTensor op))) \<notin> getInputDataLayouts \<or>
        layout (shape (heap s (kernelsTensor op))) \<notin> getInputDataLayouts \<or>
        layout (shape (heap s (outputTensor op))) \<notin> getOutputDataLayouts"
    using that
    by (intro run_asserts) (simp add: getInputDataLayouts_def getOutputDataLayouts_def)
  have b: "layout (shape (heap s (inputTensor op))) = NHWC \<and>
      layout (shape (heap s (kernelsTensor op))) = NHWC \<and>
      layout (shape (heap s (outputTensor op))) = NHWC"
    if called: "ComputeBasicTileShapes \<in>
         set (drop (length (trace s)) (trace (snd (run opt k op s)))) \<or>
       (\<exists>t sh hs. GenerateTiledTensor t sh hs \<in>
         set (drop (length (trace s)) (trace (snd (run opt k op s)))))"
  proof (rule ccontr)
    assume "\<not> ?thesis"
    then have "run opt k op s = (Some AssertionFailure, s)"
      by (intro run_asserts) auto
    with called show False by simp
  qed
  from a b show ?thesis by blast
qed

theorem layouts_asserted_before_tiling_witness:
  "layout (shape (heap nchwState (inputTensor exOp))) \<notin> getInputDataLayouts \<and>
   run wholeTensorOptimizer exKernel exOp nchwState = (Some AssertionFailure, nchwState) \<and>
   ComputeBasicTileShapes \<in> set (drop (length (trace convState))
      (trace (snd (run wholeTensorOptimizer exKernel exOp convState)))) \<and>
   layout (shape (heap convState (inputTensor exOp))) = NHWC"
proof -
  have n: "layout (shape (heap nchwState (inputTensor exOp))) \<notin> getInputDataLayouts"
    by (simp add: nchwState_def exOp_def getInputDataLayouts_def)
  have c: "ComputeBasicTileShapes \<in> set (drop (length (trace convState))
      (trace (snd (run wholeTensorOptimizer exKernel exOp convState))))"
    by (simp add: run_def wholeTensorOptimizer_def convState_def convHeap_def ex_defs
        Let_def kNumPEs_def kNumMaccsPerPE_def forLoop.simps chanLoop.simps)
  from layouts_asserted_before_tiling[of nchwState exOp wholeTensorOptimizer exKernel] n
  have a: "run wholeTensorOptimizer exKernel exOp nchwState = (Some AssertionFailure, nchwState)"
    by blast
  from layouts_asserted_before_tiling[of convState exOp wholeTensorOptimizer exKernel] c
  have b: "layout (shape (heap convState (inputTensor exOp))) = NHWC"
    by blast
  from n a c b show ?thesis by simp
qed

text \<open>
  C7. Whatever \<^verbatim>\<open>runNHWC\<close> does, and however it ends, a tensor whose address is not a tile
  of the output tiled tensor is left as it was: when the output tiles are disjoint from
  the input and weight tiles, no input or weight tile is changed. (The shape of every
  tensor, output tiles included, is left as it was too: only output data is written.)
  The kernel, which is outside the sources at hand, is the parameter \<open>k\<close>: as the spec
  describes it, it writes its results into the output tile buffer and nowhere else.
\<close>

theorem only_output_tiles_written:
  "(\<forall>a. a \<notin> tileAddrs outputs \<longrightarrow>
        heap (snd (runNHWC k op inputs weights outputs s)) a = heap s a) \<and>
   (tileAddrs outputs \<inter> (tileAddrs inputs \<union> tileAddrs weights) = {} \<longrightarrow>
      (\<forall>a\<in>tileAddrs inputs \<union> tileAddrs weights.
          heap (snd (runNHWC k op inputs weights outputs s)) a = heap s a)) \<and>
   (\<forall>a. shape (heap (snd (runNHWC k op inputs weights outputs s)) a) = shape (heap s a))"
proof -
  obtain r s' where run: "runNHWC k op inputs weights outputs s = (r, s')"
    by (cases "runNHWC k op inputs weights outputs s")
  have f: "heap s' a = heap s a" if "a \<notin> tileAddrs outputs" for a
    using runNHWC_frame[OF run that] .
  have g: "shape (heap s' a) = shape (heap s a)" for a
    using runNHWC_shape[OF run] .
  show ?thesis using f g run by auto
qed

theorem only_output_tiles_written_witness:
  "tileAddrs (mkTiled (1, 1, 1, 1) [4]) \<inter>
     (tileAddrs (mkTiled (1, 1, 1, 2) [0, 1]) \<union> tileAddrs (mkTiled (1, 1, 1, 2) [2, 3])) = {} \<and>
   (0::nat) \<in> tileAddrs (mkTiled (1, 1, 1, 2) [0, 1]) \<union> tileAddrs (mkTiled (1, 1, 1, 2) [2, 3]) \<and>
   heap (snd (runNHWC exKernel exOp (mkTiled (1, 1, 1, 2) [0, 1]) (mkTiled (1, 1, 1, 2) [2, 3])
          (mkTiled (1, 1, 1, 1) [4]) exState)) 0 = heap exState 0 \<and>
   data (heap (snd (runNHWC exKernel exOp (mkTiled (1, 1, 1, 2) [0, 1]) (mkTiled (1, 1, 1, 2) [2, 3])
          (mkTiled (1, 1, 1, 1) [4]) exState)) 4) = 2"
proof -
  have d: "tileAddrs (mkTiled (1, 1, 1, 1) [4]) \<inter>
     (tileAddrs (mkTiled (1, 1, 1, 2) [0, 1]) \<union> tileAddrs (mkTiled (1, 1, 1, 2) [2, 3])) = {}"
    by (auto simp: tileAddrs_def mkTiled_def in_these_eq)
  have i: "(0::nat) \<in> tileAddrs (mkTiled (1, 1, 1, 2) [0, 1]) \<union> tileAddrs (mkTiled (1, 1, 1, 2) [2, 3])"
    by (auto simp: tileAddrs_def mkTiled_def in_these_eq)
  from only_output_tiles_written[of "mkTiled (1, 1, 1, 1) [4]" exKernel exOp
      "mkTiled (1, 1, 1, 2) [0, 1]" "mkTiled (1, 1, 1, 2) [2, 3]" exState] d i
  have "heap (snd (runNHWC exKernel exOp (mkTiled (1, 1, 1, 2) [0, 1]) (mkTiled (1, 1, 1, 2) [2, 3])
          (mkTiled (1, 1, 1, 1) [4]) exState)) 0 = heap exState 0"
    by blast
  moreover have "data (heap (snd (runNHWC exKernel exOp (mkTiled (1, 1, 1, 2) [0, 1])
          (mkTiled (1, 1, 1, 2) [2, 3]) (mkTiled (1, 1, 1, 1) [4]) exState)) 4) = 2"
    using ex22_eval(2) by simp
  ultimately show ?thesis using d i by blast
qed

text \<open>
  C8. For every source tensor whose data has the (positive) extents of its shape, every
  tile shape with positive extents and every halo specification, putting the tiles of
  \<^verbatim>\<open>generateTiledTensor\<close> together again, halos taken off, gives back the data of the
  source exactly. The grid has one tile for each coordinate; along every axis the tiles
  cover the whole extent of the source and the last tile is not empty, whether or not the
  tile extent divides the source extent; and every tile has the extents its shape
  declares.
\<close>

theorem tiles_reconstruct_source:
  assumes "conforms src"
    and "0 < shapeAt tileShape I0" and "0 < shapeAt tileShape I1"
    and "0 < shapeAt tileShape I2" and "0 < shapeAt tileShape I3"
  shows "reconstruct (generateTiledTensor src tileShape halos) = data src \<and>
         length (tdTiles (generateTiledTensor src tileShape halos)) =
           nth4 (tdGrid (generateTiledTensor src tileShape halos)) I0 *
           (nth4 (tdGrid (generateTiledTensor src tileShape halos)) I1 *
            (nth4 (tdGrid (generateTiledTensor src tileShape halos)) I2 *
             nth4 (tdGrid (generateTiledTensor src tileShape halos)) I3)) \<and>
         (\<forall>i\<in>{I0, I1, I2, I3}.
            nat (shapeAt (shape src) i) \<le>
              nth4 (tdGrid (generateTiledTensor src tileShape halos)) i * nat (shapeAt tileShape i) \<and>
            (nth4 (tdGrid (generateTiledTensor src tileShape halos)) i - 1) * nat (shapeAt tileShape i)
              < nat (shapeAt (shape src) i)) \<and>
         (\<forall>T\<in>set (tdTiles (generateTiledTensor src tileShape halos)). conforms T)"
proof -
  let ?td = "generateTiledTensor src tileShape halos"
  let ?t = "natDims tileShape"
  let ?n = "natDims (shape src)"
  let ?g = "(axisTiles (nth4 ?n I0) (nth4 ?t I0), axisTiles (nth4 ?n I1) (nth4 ?t I1),
             axisTiles (nth4 ?n I2) (nth4 ?t I2), axisTiles (nth4 ?n I3) (nth4 ?t I3))"
  have tp: "0 < nth4 ?t I0" "0 < nth4 ?t I1" "0 < nth4 ?t I2" "0 < nth4 ?t I3"
    using assms(2-5) by (simp_all add: natDims_def)
  have np: "0 < nth4 ?n I0" "0 < nth4 ?n I1" "0 < nth4 ?n I2" "0 < nth4 ?n I3"
    using assms(1) by (simp_all add: natDims_def conforms_def)
  have grid: "tdGrid ?td = ?g"
    by (simp add: generateTiledTensor_def Let_def)
  have a: "reconstruct ?td = data src"
    by (rule reconstruct_generate[OF assms])
  have b: "length (tdTiles ?td) = nth4 (tdGrid ?td) I0 *
           (nth4 (tdGrid ?td) I1 * (nth4 (tdGrid ?td) I2 * nth4 (tdGrid ?td) I3))"
    by (simp add: generateTiledTensor_def Let_def gridCoords_length)
  have last_tile: "(axisTiles n t - 1) * t < n" if "0 < t" "0 < n" for n t :: nat
  proof -
    have "(n + t - 1) div t * t \<le> n + t - 1" by simp
    also have "\<dots> < n + t" using that by simp
    finally have "axisTiles n t * t < n + t" by (simp add: axisTiles_def)
    moreover have "0 < axisTiles n t" using that by (rule axisTiles_pos)
    ultimately show ?thesis using that by (simp add: diff_mult_distrib)
  qed
  have c: "\<forall>i\<in>{I0, I1, I2, I3}.
            nat (shapeAt (shape src) i) \<le> nth4 (tdGrid ?td) i * nat (shapeAt tileShape i) \<and>
            (nth4 (tdGrid ?td) i - 1) * nat (shapeAt tileShape i) < nat (shapeAt (shape src) i)"
    using tp np axisTiles_covers last_tile
    by (simp add: grid natDims_def)
  have d: "\<forall>T\<in>set (tdTiles ?td). conforms T"
  proof
    fix T assume "T \<in> set (tdTiles ?td)"
    then obtain k where k: "k \<in> set (gridCoords ?g)"
      and T: "T = \<lparr> shape = tileShapeAt (shape src) ?t
                   (haloAt halos 0, haloAt halos 1, haloAt halos 2, haloAt halos 3) k,
                 data = tileData ?t
                   (haloAt halos 0, haloAt halos 1, haloAt halos 2, haloAt halos 3) k (data src) \<rparr>"
      by (auto simp: generateTiledTensor_def Let_def)
    from gridCoords_set[OF k] have "nth4 k I0 < axisTiles (nth4 ?n I0) (nth4 ?t I0)"
      "nth4 k I1 < axisTiles (nth4 ?n I1) (nth4 ?t I1)"
      "nth4 k I2 < axisTiles (nth4 ?n I2) (nth4 ?t I2)"
      "nth4 k I3 < axisTiles (nth4 ?n I3) (nth4 ?t I3)"
      by simp_all
    from tile_conforms[OF assms(1) tp this] show "conforms T" unfolding T .
  qed
  from a b c d show ?thesis by blast
qed

theorem tiles_reconstruct_source_witness:
  "conforms exSource \<and>
   reconstruct (generateTiledTensor exSource (mkShape (1, 1, 2, 2)) [0, 1, 1, 0]) =
     [[[[1, 2], [3, 4], [5, 6], [7, 8], [9, 10]]]] \<and>
   length (tdTiles (generateTiledTensor exSource (mkShape (1, 1, 2, 2)) [0, 1, 1, 0])) = 3"
proof -
  have c: "conforms exSource"
    by (simp add: conforms_def exSource_def mkShape_def shapeAt_def)
  have t: "0 < shapeAt (mkShape (1, 1, 2, 2)) I0" "0 < shapeAt (mkShape (1, 1, 2, 2)) I1"
    "0 < shapeAt (mkShape (1, 1, 2, 2)) I2" "0 < shapeAt (mkShape (1, 1, 2, 2)) I3"
    by (simp_all add: mkShape_def shapeAt_def)
  from tiles_reconstruct_source[OF c t, of "[0, 1, 1, 0]"]
  have "reconstruct (generateTiledTensor exSource (mkShape (1, 1, 2, 2)) [0, 1, 1, 0]) =
          data exSource"
    and "length (tdTiles (generateTiledTensor exSource (mkShape (1, 1, 2, 2)) [0, 1, 1, 0])) =
           nth4 (tdGrid (generateTiledTensor exSource (mkShape (1, 1, 2, 2)) [0, 1, 1, 0])) I0 *
           (nth4 (tdGrid (generateTiledTensor exSource (mkShape (1, 1, 2, 2)) [0, 1, 1, 0])) I1 *
            (nth4 (tdGrid (generateTiledTensor exSource (mkShape (1, 1, 2, 2)) [0, 1, 1, 0])) I2 *
             nth4 (tdGrid (generateTiledTensor exSource (mkShape (1, 1, 2, 2)) [0, 1, 1, 0])) I3))"
    by blast+
  then show ?thesis using c by (simp add: exSource_tiles(3)) (simp add: exSource_def)
qed



end
